theory Spec2Isabelle
  imports Complex_Main
begin

section \<open>Data model\<close>

text \<open>
  The order-copy pipeline of the SX copy market maker: the ledger (\<open>RiskManager\<close>), the
  ingestion stage (\<open>OrderMonitor\<close>), the transform and submit stage
  (\<open>OrderCopyEngine\<close> with the odds and stake utilities), the connection manager
  (\<open>WebSocketClient\<close>) and the handlers of \<open>SXMarketMakingBot\<close> that tie them together.

  Conventions of the embedding.
  \<^item> Hashes, wallet addresses and the amounts that the code only ever compares as text
    (\<open>fillAmount\<close>, \<open>pendingFillAmount\<close>) are \<open>string\<close>s.
  \<^item> The amounts that the code hands to \<open>BigNumber.from\<close> (\<open>totalBetSize\<close>,
    \<open>percentageOdds\<close>, \<open>minStake\<close>, \<open>maxStake\<close>) are the integers their decimal
    strings denote; \<open>BigNumber\<close> is unbounded, hence \<open>int\<close>. The strings are taken to be
    canonical (decimal digits without leading zeros, as the exchange and
    \<open>BigNumber.toString\<close> write them), so that two of them are equal exactly when the
    integers are.
  \<^item> A JavaScript \<open>number\<close> (step size, step count, percentage) is the rational it
    denotes. Arithmetic on numbers is that of IEEE 754 doubles: a product is rounded to the
    nearest double (\<open>toDouble\<close>).
  \<^item> An optional field is an \<open>option\<close>; \<open>undefined\<close> is \<open>None\<close>.
  \<^item> A JavaScript \<open>Map\<close> is an association list in insertion order.
  \<^item> An exception is a value of type \<open>thrown\<close>; a function that may throw returns a sum
    with the exception on the left.
  \<^item> An \<open>async\<close> function runs without interruption from one \<open>await\<close> to the next. Where
    a property depends on what runs in between, the function is split at the \<open>await\<close>: a
    first part up to the suspension and a second part from the resumption on.
  \<^item> The collaborators outside the pipeline (signing, exchange, clock, filter verdict) are
    parameters.
  \<^item> Logging is left out: it changes no state that the pipeline reads.
\<close>

record order =
  orderHash :: string
  marketHash :: string
  fillAmount :: string
  pendingFillAmount :: "string option"
  totalBetSize :: int
  percentageOdds :: int
  expiry :: int
  apiExpiry :: int
  salt :: string
  isMakerBettingOutcomeOne :: bool
  signature :: string
  updateTime :: "int option"
  sportXeventId :: string

subsection \<open>JavaScript maps and truthiness\<close>

text \<open>\<open>Map.get\<close>, \<open>Map.set\<close> (a present key keeps its place, a new key goes last) and
  \<open>Map.delete\<close>.\<close>

definition mapGet :: "('k \<times> 'v) list \<Rightarrow> 'k \<Rightarrow> 'v option" where
  "mapGet m k = map_of m k"

fun mapSet :: "('k \<times> 'v) list \<Rightarrow> 'k \<Rightarrow> 'v \<Rightarrow> ('k \<times> 'v) list" where
  "mapSet [] k v = [(k, v)]"
| "mapSet ((k', v') # m) k v = (if k' = k then (k, v) # m else (k', v') # mapSet m k v)"

fun mapDelete :: "('k \<times> 'v) list \<Rightarrow> 'k \<Rightarrow> ('k \<times> 'v) list" where
  "mapDelete [] k = []"
| "mapDelete ((k', v') # m) k = (if k' = k then m else (k', v') # mapDelete m k)"

text \<open>A string is falsy exactly when it is empty.\<close>

definition truthy :: "string \<Rightarrow> bool" where
  "truthy s = (s \<noteq> [])"

section \<open>Ledger (RiskManager)\<close>

record riskManager =
  trackedOrders :: "(string \<times> order) list"
  ordersByOriginal :: "(string \<times> string) list"
  originalOrderHistory :: "string set"

definition newRiskManager :: riskManager where
  "newRiskManager = \<lparr>trackedOrders = [], ordersByOriginal = [], originalOrderHistory = {}\<rparr>"

definition recordOrderMapping :: "riskManager \<Rightarrow> order \<Rightarrow> string \<Rightarrow> riskManager" where
  "recordOrderMapping rm ord originalOrderHash =
     (let rm1 = rm\<lparr>originalOrderHistory := insert originalOrderHash (originalOrderHistory rm)\<rparr>
      in case mapGet (ordersByOriginal rm1) originalOrderHash of
           Some tracked \<Rightarrow>
             if truthy tracked then rm1
             else rm1\<lparr>ordersByOriginal :=
                        mapSet (ordersByOriginal rm1) originalOrderHash (orderHash ord)\<rparr>
         | None \<Rightarrow>
             rm1\<lparr>ordersByOriginal :=
                    mapSet (ordersByOriginal rm1) originalOrderHash (orderHash ord)\<rparr>)"

definition recordOrder :: "riskManager \<Rightarrow> order \<Rightarrow> riskManager" where
  "recordOrder rm ord = rm\<lparr>trackedOrders := mapSet (trackedOrders rm) (orderHash ord) ord\<rparr>"

text \<open>The loop of \<open>removeOrder\<close> over \<open>ordersByOriginal.entries()\<close>: the first entry whose
  value is the removed hash is deleted, then the loop breaks.\<close>

fun deleteFirstCopied :: "(string \<times> string) list \<Rightarrow> string \<Rightarrow> (string \<times> string) list" where
  "deleteFirstCopied [] h = []"
| "deleteFirstCopied ((originalHash, copiedHash) # m) h =
     (if copiedHash = h then m else (originalHash, copiedHash) # deleteFirstCopied m h)"

definition removeOrder :: "riskManager \<Rightarrow> string \<Rightarrow> riskManager" where
  "removeOrder rm h =
     (case mapGet (trackedOrders rm) h of
        None \<Rightarrow> rm
      | Some tracked \<Rightarrow>
          rm\<lparr>trackedOrders := mapDelete (trackedOrders rm) h,
             ordersByOriginal := deleteFirstCopied (ordersByOriginal rm) h\<rparr>)"

definition isOrderCopied :: "riskManager \<Rightarrow> string \<Rightarrow> bool" where
  "isOrderCopied rm h = (h \<in> originalOrderHistory rm)"

text \<open>\<open>this.ordersByOriginal.get(originalOrderHash) || ""\<close>: a missing or empty mapped hash
  falls back to the empty string, which is then looked up among the tracked orders.\<close>

definition findCopiedOrder :: "riskManager \<Rightarrow> string \<Rightarrow> order option" where
  "findCopiedOrder rm originalOrderHash =
     (let copiedHash = (case mapGet (ordersByOriginal rm) originalOrderHash of
                          Some c \<Rightarrow> if truthy c then c else []
                        | None \<Rightarrow> [])
      in mapGet (trackedOrders rm) copiedHash)"

definition clear :: "riskManager \<Rightarrow> riskManager" where
  "clear rm = rm\<lparr>trackedOrders := [], ordersByOriginal := []\<rparr>"

text \<open>The public mutators of the ledger, and a run of them.\<close>

datatype ledgerOp =
    RecordOrderMapping order string
  | RecordOrder order
  | RemoveOrder string
  | Clear

fun applyOp :: "riskManager \<Rightarrow> ledgerOp \<Rightarrow> riskManager" where
  "applyOp rm (RecordOrderMapping ord h) = recordOrderMapping rm ord h"
| "applyOp rm (RecordOrder ord) = recordOrder rm ord"
| "applyOp rm (RemoveOrder h) = removeOrder rm h"
| "applyOp rm Clear = clear rm"

definition applyOps :: "riskManager \<Rightarrow> ledgerOp list \<Rightarrow> riskManager" where
  "applyOps rm ops = foldl applyOp rm ops"

section \<open>Quantization and adjustment library\<close>

subsection \<open>BigNumber arithmetic\<close>

text \<open>
  What the code throws, as values. The first three are the faults of the \<open>BigNumber\<close>
  class of ethers v5: \<open>BigNumber.from\<close> of a number with a fractional part (underflow), of
  a number at or beyond \<open>0x1fffffffffffff\<close> in magnitude (overflow), and \<open>div\<close> by zero or
  \<open>mod\<close> by a negative number (division-by-zero). \<open>AssertionFailed\<close> is the assertion of
  the underlying \<open>umod\<close> on a zero modulus.
\<close>

datatype thrown =
    Underflow
  | Overflow
  | DivisionByZero
  | AssertionFailed
  | InvalidMakerOdds
  | AdjustedOddsOutOfRange
  | AdjustedOddsNegative
  | PercentageOutOfRange
  | SigningFailed string
  | RequestFailed string
  | ClientNotConnected

definition MAX_SAFE :: int where
  "MAX_SAFE = 2 ^ 53 - 1"

definition bnFromNumber :: "rat \<Rightarrow> thrown + int" where
  "bnFromNumber x =
     (if of_int \<lfloor>x\<rfloor> \<noteq> x then Inl Underflow
      else if of_int MAX_SAFE \<le> x \<or> x \<le> - of_int MAX_SAFE then Inl Overflow
      else Inr \<lfloor>x\<rfloor>)"

text \<open>\<open>div\<close> truncates towards zero; \<open>mod\<close> is the non-negative remainder.\<close>

definition truncDiv :: "int \<Rightarrow> int \<Rightarrow> int" where
  "truncDiv a b = sgn a * sgn b * (\<bar>a\<bar> div \<bar>b\<bar>)"

definition bnDiv :: "int \<Rightarrow> int \<Rightarrow> thrown + int" where
  "bnDiv a b = (if b = 0 then Inl DivisionByZero else Inr (truncDiv a b))"

definition bnMod :: "int \<Rightarrow> int \<Rightarrow> thrown + int" where
  "bnMod a b =
     (if b < 0 then Inl DivisionByZero
      else if b = 0 then Inl AssertionFailed
      else Inr (a mod b))"

text \<open>\<open>Math.round\<close> rounds a half towards plus infinity.\<close>

definition mathRound :: "rat \<Rightarrow> int" where
  "mathRound x = \<lfloor>x + 1 / 2\<rfloor>"

subsection \<open>Doubles\<close>

text \<open>
  The double nearest to a rational, ties to the even significand. \<open>normalise\<close> scales a
  positive \<open>q\<close> into the range of a 53-bit significand and counts the exponent, which
  stops at \<open>- 1074\<close>, the exponent of the subnormal doubles; its first argument bounds the
  number of steps and is large enough for every double. A result of magnitude \<open>2 ^ 1024\<close>
  or more stands for an infinity: like the infinity, it fails the range test of
  \<open>BigNumber.from\<close>. \<open>NaN\<close> is not represented.
\<close>

primrec normalise :: "nat \<Rightarrow> rat \<Rightarrow> int \<Rightarrow> rat \<times> int" where
  "normalise 0 q e = (q, e)"
| "normalise (Suc n) q e =
     (if q < 2 ^ 52 \<and> - 1074 < e then normalise n (q * 2) (e - 1)
      else if 2 ^ 53 \<le> q then normalise n (q / 2) (e + 1)
      else (q, e))"

definition roundHalfEven :: "rat \<Rightarrow> int" where
  "roundHalfEven q =
     (let n = \<lfloor>q\<rfloor>; r = q - of_int n
      in if r < 1 / 2 then n
         else if 1 / 2 < r then n + 1
         else if even n then n else n + 1)"

definition twoToThe :: "int \<Rightarrow> rat" where
  "twoToThe e = (if 0 \<le> e then 2 ^ nat e else 1 / 2 ^ nat (- e))"

definition toDouble :: "rat \<Rightarrow> rat" where
  "toDouble x =
     (if x = 0 then 0
      else case normalise 2200 \<bar>x\<bar> 0 of
             (q, e) \<Rightarrow> sgn x * of_int (roundHalfEven q) * twoToThe e)"

text \<open>\<open>a * b\<close> on numbers: the double nearest to the product of the two doubles. A
  factor that is written as a decimal, such as \<open>1.005\<close>, is the double nearest to it.\<close>

definition doubleTimes :: "rat \<Rightarrow> rat \<Rightarrow> rat" where
  "doubleTimes a b = toDouble (toDouble a * toDouble b)"

subsection \<open>Odds (validation.ts, odds.ts)\<close>

definition ODDS_PRECISION :: nat where
  "ODDS_PRECISION = 20"

definition isValidOdds :: "int \<Rightarrow> bool" where
  "isValidOdds odds = (0 \<le> odds \<and> odds \<le> 10 ^ ODDS_PRECISION)"

text \<open>\<open>BigNumber.from(10).pow(15).mul(stepSize)\<close>, the rung of the ladder.\<close>

definition ladderStep :: "rat \<Rightarrow> thrown + int" where
  "ladderStep stepSize =
     (case bnFromNumber stepSize of Inl e \<Rightarrow> Inl e | Inr n \<Rightarrow> Inr (10 ^ 15 * n))"

definition isOnOddsLadder :: "int \<Rightarrow> rat \<Rightarrow> bool" where
  "isOnOddsLadder odds stepSize =
     (case ladderStep stepSize of
        Inl e \<Rightarrow> False
      | Inr step \<Rightarrow> (case bnMod odds step of Inl e \<Rightarrow> False | Inr r \<Rightarrow> r = 0))"

definition roundOddsToLadder :: "int \<Rightarrow> rat \<Rightarrow> thrown + int" where
  "roundOddsToLadder odds stepSize =
     (case ladderStep stepSize of
        Inl e \<Rightarrow> Inl e
      | Inr step \<Rightarrow> (case bnDiv odds step of Inl e \<Rightarrow> Inl e | Inr q \<Rightarrow> Inr (q * step)))"

definition adjustOddsByPercentage :: "int \<Rightarrow> rat \<Rightarrow> bool \<Rightarrow> rat \<Rightarrow> thrown + int" where
  "adjustOddsByPercentage makerOdds percentage ensureLadder stepSize =
     (if \<not> isValidOdds makerOdds then Inl InvalidMakerOdds
      else case bnFromNumber (of_int (10000 + mathRound (doubleTimes percentage 100))) of
        Inl e \<Rightarrow> Inl e
      | Inr factorBps \<Rightarrow>
         (case bnDiv (makerOdds * factorBps) 10000 of
            Inl e \<Rightarrow> Inl e
          | Inr adjusted \<Rightarrow>
             (case (if ensureLadder then roundOddsToLadder adjusted stepSize else Inr adjusted) of
                Inl e \<Rightarrow> Inl e
              | Inr result \<Rightarrow>
                  if \<not> isValidOdds result then Inl AdjustedOddsOutOfRange else Inr result)))"

definition adjustOddsBySteps :: "int \<Rightarrow> rat \<Rightarrow> rat \<Rightarrow> thrown + int" where
  "adjustOddsBySteps makerOdds steps stepSize =
     (if \<not> isValidOdds makerOdds then Inl InvalidMakerOdds
      else case ladderStep stepSize of
        Inl e \<Rightarrow> Inl e
      | Inr stepValue \<Rightarrow>
         (case bnFromNumber \<bar>steps\<bar> of
            Inl e \<Rightarrow> Inl e
          | Inr n \<Rightarrow>
             (let adjustmentAmount = stepValue * n;
                  adjusted = (if 0 \<le> steps then makerOdds + adjustmentAmount
                              else makerOdds - adjustmentAmount)
              in if adjusted < 0 then Inl AdjustedOddsNegative
                 else if \<not> isValidOdds adjusted then Inl AdjustedOddsOutOfRange
                 else Inr adjusted)))"

subsection \<open>Stake (stake.ts)\<close>

text \<open>The percentage is a number: where it is compared, it is the double nearest to it.\<close>

definition adjustStakeByPercentage :: "int \<Rightarrow> rat \<Rightarrow> thrown + int" where
  "adjustStakeByPercentage originalStake percentage =
     (if toDouble percentage < 0 \<or> 1000 < toDouble percentage then Inl PercentageOutOfRange
      else case bnFromNumber (of_int (mathRound (doubleTimes percentage 100))) of
        Inl e \<Rightarrow> Inl e
      | Inr pctBps \<Rightarrow> bnDiv (originalStake * pctBps) 10000)"

datatype stakeReason = BelowMinimum int int | ExceedsMaximum int int

record stakeValidation =
  valid :: bool
  reason :: "stakeReason option"
  clamped :: "int option"

definition validateStakeLimits :: "int \<Rightarrow> int \<Rightarrow> int \<Rightarrow> stakeValidation" where
  "validateStakeLimits stake minS maxS =
     (if stake < minS then
        \<lparr>valid = False, reason = Some (BelowMinimum stake minS), clamped = Some minS\<rparr>
      else if maxS < stake then
        \<lparr>valid = False, reason = Some (ExceedsMaximum stake maxS), clamped = Some maxS\<rparr>
      else \<lparr>valid = True, reason = None, clamped = None\<rparr>)"

section \<open>Transform and submit stage (OrderCopyEngine)\<close>

datatype odds_method = OddsPercentage | OddsFixed | OddsNone

datatype stake_method = StakePercentage | StakeFixed | StakeCopy

record oddsAdjustmentConfig =
  oddsMethod :: odds_method
  oddsValue :: rat
  ensureLadderCompliance :: bool

record stakeAdjustmentConfig =
  stakeMethod :: stake_method
  stakeValue :: rat
  minStake :: int
  maxStake :: int

record copyingConfig =
  enabled :: bool
  copyDelay :: rat
  oddsAdjustment :: oddsAdjustmentConfig
  stakeAdjustment :: stakeAdjustmentConfig
  autoCancelOnSource :: bool

record metadata =
  executorAddress :: string
  oddsLadderStepSize :: rat

record newOrder =
  newMarketHash :: string
  maker :: string
  newTotalBetSize :: int
  newPercentageOdds :: int
  newExpiry :: int
  newApiExpiry :: int
  newBaseToken :: string
  executor :: string
  newSalt :: string
  newIsMakerBettingOutcomeOne :: bool

record signedOrder =
  signedFields :: newOrder
  signedSignature :: string

record orderResponse =
  orders :: "string list"
  statuses :: "string list"
  inserted :: int

text \<open>The engine: its configuration, the address \<open>walletManager.getAddress()\<close> of the
  bot's wallet, and the fields \<open>initialize\<close> sets.\<close>

record orderCopyEngine =
  config :: copyingConfig
  walletAddress :: string
  metadataOpt :: "metadata option"
  ladderStepSize :: rat
  baseToken :: string

text \<open>What the collaborators answer during one \<open>copyOrder\<close>: the salt, the clock
  (\<open>Math.floor(Date.now() / 1000)\<close>), the signing service and the exchange. A collaborator
  that throws answers \<open>Inl\<close>.\<close>

record collaborators =
  generateSalt :: string
  nowSeconds :: int
  signOrder :: "newOrder \<Rightarrow> thrown + string"
  postOrders :: "signedOrder list \<Rightarrow> thrown + orderResponse"

text \<open>The requests \<open>copyOrder\<close> sends out, in order.\<close>

datatype request = SignOrder newOrder | PostOrders "signedOrder list"

datatype modification =
    OddsChanged int int
  | StakeChanged int int
  | MakerChanged string string
  | NoModifications

record orderModification =
  modOriginalOrderHash :: string
  modMonitoredWallet :: string
  originalOdds :: int
  adjustedOdds :: int
  originalStake :: int
  adjustedStake :: int
  modificationList :: "modification list"

datatype copyError =
    CopyingDisabled
  | EngineNotInitialized
  | StakeRejected "stakeReason option"
  | SubmissionFailed "string option"
  | Caught thrown

record copyResult =
  success :: bool
  resultOrderHash :: "string option"
  copyErr :: "copyError option"
  originalOrder :: order
  copiedOrder :: "order option"
  modifications :: "orderModification option"

definition DEFAULT_ORDER_EXPIRY :: int where
  "DEFAULT_ORDER_EXPIRY = 2209006800"

definition DEFAULT_API_EXPIRY_OFFSET :: int where
  "DEFAULT_API_EXPIRY_OFFSET = 24 * 60 * 60"

definition adjustOdds :: "orderCopyEngine \<Rightarrow> int \<Rightarrow> thrown + int" where
  "adjustOdds eng odds =
     (let cfg = oddsAdjustment (config eng);
          ensureLadder = ensureLadderCompliance cfg
      in case (case oddsMethod cfg of
                 OddsPercentage \<Rightarrow>
                   adjustOddsByPercentage odds (oddsValue cfg) ensureLadder (ladderStepSize eng)
               | OddsFixed \<Rightarrow> adjustOddsBySteps odds (oddsValue cfg) (ladderStepSize eng)
               | OddsNone \<Rightarrow> Inr odds) of
           Inl e \<Rightarrow> Inl e
         | Inr adjusted \<Rightarrow>
             if ensureLadder \<and> \<not> isOnOddsLadder adjusted (ladderStepSize eng)
             then roundOddsToLadder adjusted (ladderStepSize eng)
             else Inr adjusted)"

text \<open>The \<open>switch\<close> of \<open>adjustStake\<close>: the stake the configured method yields, before the
  limits are applied.\<close>

definition stakeByMethod :: "orderCopyEngine \<Rightarrow> int \<Rightarrow> thrown + int" where
  "stakeByMethod eng stake =
     (let cfg = stakeAdjustment (config eng)
      in case stakeMethod cfg of
           StakePercentage \<Rightarrow> adjustStakeByPercentage stake (stakeValue cfg)
         | StakeFixed \<Rightarrow> Inr (minStake cfg)
         | StakeCopy \<Rightarrow> Inr stake)"

definition adjustStake :: "orderCopyEngine \<Rightarrow> int \<Rightarrow> thrown + int" where
  "adjustStake eng stake =
     (let cfg = stakeAdjustment (config eng)
      in case stakeByMethod eng stake of
           Inl e \<Rightarrow> Inl e
         | Inr adjusted \<Rightarrow>
             (let validation = validateStakeLimits adjusted (minStake cfg) (maxStake cfg)
              in case clamped validation of
                   Some c \<Rightarrow> if \<not> valid validation then Inr c else Inr adjusted
                 | None \<Rightarrow> Inr adjusted))"

text \<open>\<open>getModificationList\<close> compares the amounts as strings; on canonical strings that
  is the comparison of the integers.\<close>

definition getModificationList :: "order \<Rightarrow> newOrder \<Rightarrow> string \<Rightarrow> modification list" where
  "getModificationList original modified monitoredWallet =
     (let ms = (if percentageOdds original \<noteq> newPercentageOdds modified
                then [OddsChanged (percentageOdds original) (newPercentageOdds modified)] else [])
             @ (if totalBetSize original \<noteq> newTotalBetSize modified
                then [StakeChanged (totalBetSize original) (newTotalBetSize modified)] else [])
             @ (if monitoredWallet \<noteq> maker modified
                then [MakerChanged monitoredWallet (maker modified)] else [])
      in if ms = [] then [NoModifications] else ms)"

definition failed :: "copyError \<Rightarrow> order \<Rightarrow> orderModification option \<Rightarrow> copyResult" where
  "failed e original mods =
     \<lparr>success = False, resultOrderHash = None, copyErr = Some e, originalOrder = original,
      copiedOrder = None, modifications = mods\<rparr>"

text \<open>\<open>xs[0]\<close>: \<open>undefined\<close> on an empty array.\<close>

definition first :: "'a list \<Rightarrow> 'a option" where
  "first xs = (case xs of [] \<Rightarrow> None | x # _ \<Rightarrow> Some x)"

text \<open>The object literals of \<open>copyOrder\<close>: the new order, and the \<open>Order\<close> view of the
  signed order that is returned as the copy. When the exchange reports an insertion but
  lists no hash, the copy's hash is \<open>undefined\<close>, written here as the empty string (both
  are falsy).\<close>

definition buildNewOrder ::
  "orderCopyEngine \<Rightarrow> collaborators \<Rightarrow> metadata \<Rightarrow> order \<Rightarrow> int \<Rightarrow> int \<Rightarrow> newOrder" where
  "buildNewOrder eng env md original adjOdds adjStake =
     \<lparr>newMarketHash = marketHash original,
      maker = walletAddress eng,
      newTotalBetSize = adjStake,
      newPercentageOdds = adjOdds,
      newExpiry = DEFAULT_ORDER_EXPIRY,
      newApiExpiry = nowSeconds env + DEFAULT_API_EXPIRY_OFFSET,
      newBaseToken = baseToken eng,
      executor = executorAddress md,
      newSalt = generateSalt env,
      newIsMakerBettingOutcomeOne = isMakerBettingOutcomeOne original\<rparr>"

definition buildCopiedOrder :: "signedOrder \<Rightarrow> string option \<Rightarrow> order \<Rightarrow> order" where
  "buildCopiedOrder signed copiedOrderHash original =
     \<lparr>orderHash = (case copiedOrderHash of None \<Rightarrow> [] | Some h \<Rightarrow> h),
      marketHash = newMarketHash (signedFields signed),
      fillAmount = ''0'',
      pendingFillAmount = None,
      totalBetSize = newTotalBetSize (signedFields signed),
      percentageOdds = newPercentageOdds (signedFields signed),
      expiry = newExpiry (signedFields signed),
      apiExpiry = newApiExpiry (signedFields signed),
      salt = newSalt (signedFields signed),
      isMakerBettingOutcomeOne = newIsMakerBettingOutcomeOne (signedFields signed),
      signature = signedSignature signed,
      updateTime = None,
      sportXeventId = sportXeventId original\<rparr>"

text \<open>
  The body of the \<open>try\<close> block of \<open>copyOrder\<close>, with the requests sent so far. \<open>Inl\<close> is
  an exception on its way to the \<open>catch\<close>.
\<close>

definition copyOrderBody ::
  "orderCopyEngine \<Rightarrow> collaborators \<Rightarrow> metadata \<Rightarrow> order \<Rightarrow> string
     \<Rightarrow> (thrown + copyResult) \<times> request list" where
  "copyOrderBody eng env md original monitoredWallet =
     (case adjustOdds eng (percentageOdds original) of
        Inl e \<Rightarrow> (Inl e, [])
      | Inr adjOdds \<Rightarrow>
     (case adjustStake eng (totalBetSize original) of
        Inl e \<Rightarrow> (Inl e, [])
      | Inr adjStake \<Rightarrow>
     (let stakeCheck = validateStakeLimits adjStake
                         (minStake (stakeAdjustment (config eng)))
                         (maxStake (stakeAdjustment (config eng)))
      in if \<not> valid stakeCheck
         then (Inr (failed (StakeRejected (reason stakeCheck)) original None), [])
         else
     (let fresh = buildNewOrder eng env md original adjOdds adjStake
      in case signOrder env fresh of
           Inl e \<Rightarrow> (Inl e, [SignOrder fresh])
         | Inr sig \<Rightarrow>
     (let signed = \<lparr>signedFields = fresh, signedSignature = sig\<rparr>;
          mods = \<lparr>modOriginalOrderHash = orderHash original,
                    modMonitoredWallet = monitoredWallet,
                    originalOdds = percentageOdds original,
                    adjustedOdds = adjOdds,
                    originalStake = totalBetSize original,
                    adjustedStake = adjStake,
                    modificationList = getModificationList original fresh monitoredWallet\<rparr>;
          sent = [SignOrder fresh, PostOrders [signed]]
      in case postOrders env [signed] of
           Inl e \<Rightarrow> (Inl e, sent)
         | Inr response \<Rightarrow>
             if inserted response = 0
             then (Inr (failed (SubmissionFailed (first (statuses response))) original
                          (Some mods)), sent)
             else
               (let copiedOrderHash = first (orders response)
                in (Inr \<lparr>success = True, resultOrderHash = copiedOrderHash,
                          copyErr = None, originalOrder = original,
                          copiedOrder = Some (buildCopiedOrder signed copiedOrderHash original),
                          modifications = Some mods\<rparr>, sent)))))))"

text \<open>\<open>copyOrder\<close>: the two early returns, then the \<open>try\<close> block, whose exceptions the
  \<open>catch\<close> turns into a failed result. The optional \<open>copyDelay\<close> sleep only passes time.\<close>

definition copyOrder ::
  "orderCopyEngine \<Rightarrow> collaborators \<Rightarrow> order \<Rightarrow> string \<Rightarrow> copyResult \<times> request list" where
  "copyOrder eng env original monitoredWallet =
     (if \<not> enabled (config eng) then (failed CopyingDisabled original None, [])
      else case metadataOpt eng of
        None \<Rightarrow> (failed EngineNotInitialized original None, [])
      | Some md \<Rightarrow>
          (case copyOrderBody eng env md original monitoredWallet of
             (Inl e, sent) \<Rightarrow> (failed (Caught e) original None, sent)
           | (Inr res, sent) \<Rightarrow> (res, sent)))"

section \<open>Bot handlers (SXMarketMakingBot)\<close>

text \<open>
  \<open>handleOrderDetected\<close> is an \<open>async\<close> function. It runs without interruption up to
  \<open>await this.copyEngine.copyOrder(...)\<close>, where it is suspended, and, once the copy has
  returned, from there to its end. The first part reads the ledger, the second part writes
  it; \<open>copyOrder\<close> itself touches only the engine and the collaborators.
\<close>

definition handleOrderDetectedStart ::
  "orderCopyEngine \<Rightarrow> collaborators \<Rightarrow> riskManager \<Rightarrow> order \<Rightarrow> string
     \<Rightarrow> (copyResult \<times> request list) option" where
  "handleOrderDetectedStart eng env rm ord monitoredWallet =
     (if isOrderCopied rm (orderHash ord) then None
      else Some (copyOrder eng env ord monitoredWallet))"

definition handleOrderDetectedResume :: "riskManager \<Rightarrow> order \<Rightarrow> copyResult \<Rightarrow> riskManager" where
  "handleOrderDetectedResume rm ord res =
     (case (copiedOrder res, modifications res) of
        (Some copied, Some mods) \<Rightarrow>
          if success res then recordOrderMapping rm copied (orderHash ord) else rm
      | _ \<Rightarrow> rm)"

text \<open>One activation of \<open>handleOrderDetected\<close> with nothing else running in between.\<close>

definition handleOrderDetected ::
  "orderCopyEngine \<Rightarrow> collaborators \<Rightarrow> riskManager \<Rightarrow> order \<Rightarrow> string
     \<Rightarrow> riskManager \<times> request list" where
  "handleOrderDetected eng env rm ord monitoredWallet =
     (case handleOrderDetectedStart eng env rm ord monitoredWallet of
        None \<Rightarrow> (rm, [])
      | Some (res, sent) \<Rightarrow> (handleOrderDetectedResume rm ord res, sent))"

record cancelPayload =
  cancelOrderHashes :: "string list"
  cancelSignature :: string
  cancelSalt :: string
  cancelMaker :: string
  cancelTimestamp :: int

record cancelCollaborators =
  cancelGenerateSalt :: string
  cancelCurrentTimestamp :: int
  signCancellation :: "string list \<Rightarrow> string \<Rightarrow> int \<Rightarrow> thrown + string"

text \<open>\<open>handleOrderCancelled\<close> of the bot: the cancel requests it sends to the exchange.\<close>

definition botHandleOrderCancelled ::
  "orderCopyEngine \<Rightarrow> cancelCollaborators \<Rightarrow> riskManager \<Rightarrow> string \<Rightarrow> cancelPayload list" where
  "botHandleOrderCancelled eng env rm h =
     (if \<not> autoCancelOnSource (config eng) then []
      else case findCopiedOrder rm h of
        None \<Rightarrow> []
      | Some copied \<Rightarrow>
          (let orderHashes = [orderHash copied];
               slt = cancelGenerateSalt env;
               ts = cancelCurrentTimestamp env
           in case signCancellation env orderHashes slt ts of
                Inl e \<Rightarrow> []
              | Inr sig \<Rightarrow>
                  [\<lparr>cancelOrderHashes = orderHashes, cancelSignature = sig, cancelSalt = slt,
                    cancelMaker = walletAddress eng, cancelTimestamp = ts\<rparr>]))"

text \<open>
  The bot as the event loop runs it. A step is either an event of the order monitor, handled
  up to the handler's first suspension, or the return of a suspended copy. \<open>awaiting\<close> holds
  the activations of \<open>handleOrderDetected\<close> that wait for their copy; \<open>derivedCreated\<close>
  lists, source hash first, the derived orders the exchange has accepted. \<open>copyOrder\<close>
  neither reads nor writes the ledger, so the outcome of a copy, which the collaborators
  decide, is attached to the step that starts it; what the ledger sees of it happens at the
  return.
\<close>

record botState =
  ledger :: riskManager
  awaiting :: "(order \<times> copyResult) list"
  derivedCreated :: "(string \<times> string) list"
  cancelsSent :: "cancelPayload list"

definition newBot :: botState where
  "newBot = \<lparr>ledger = newRiskManager, awaiting = [], derivedCreated = [], cancelsSent = []\<rparr>"

datatype botEvent =
    EvOrderDetected order string collaborators
  | EvCopyReturned nat
  | EvOwnOrderDetected order
  | EvOwnOrderFilled string
  | EvOwnOrderCancelled string
  | EvOrderFilled string cancelCollaborators
  | EvOrderCancelled string cancelCollaborators

fun botStep :: "orderCopyEngine \<Rightarrow> botState \<Rightarrow> botEvent \<Rightarrow> botState" where
  "botStep eng st (EvOrderDetected ord w env) =
     (case handleOrderDetectedStart eng env (ledger st) ord w of
        None \<Rightarrow> st
      | Some (res, sent) \<Rightarrow>
          st\<lparr>awaiting := awaiting st @ [(ord, res)],
             derivedCreated := derivedCreated st @
               (case copiedOrder res of
                  Some copied \<Rightarrow> if success res then [(orderHash ord, orderHash copied)] else []
                | None \<Rightarrow> [])\<rparr>)"
| "botStep eng st (EvCopyReturned i) =
     (if i < length (awaiting st)
      then st\<lparr>ledger := handleOrderDetectedResume (ledger st)
                           (fst (awaiting st ! i)) (snd (awaiting st ! i)),
              awaiting := take i (awaiting st) @ drop (Suc i) (awaiting st)\<rparr>
      else st)"
| "botStep eng st (EvOwnOrderDetected ord) = st\<lparr>ledger := recordOrder (ledger st) ord\<rparr>"
| "botStep eng st (EvOwnOrderFilled h) = st\<lparr>ledger := removeOrder (ledger st) h\<rparr>"
| "botStep eng st (EvOwnOrderCancelled h) = st\<lparr>ledger := removeOrder (ledger st) h\<rparr>"
| "botStep eng st (EvOrderFilled h env) =
     st\<lparr>cancelsSent := cancelsSent st @ botHandleOrderCancelled eng env (ledger st) h\<rparr>"
| "botStep eng st (EvOrderCancelled h env) =
     st\<lparr>cancelsSent := cancelsSent st @ botHandleOrderCancelled eng env (ledger st) h\<rparr>"

definition botRun :: "orderCopyEngine \<Rightarrow> botState \<Rightarrow> botEvent list \<Rightarrow> botState" where
  "botRun eng st evs = foldl (botStep eng) st evs"

text \<open>The derived orders created for one source hash.\<close>

definition createdFor :: "botState \<Rightarrow> string \<Rightarrow> string list" where
  "createdFor st h = map snd (filter (\<lambda>p. fst p = h) (derivedCreated st))"

text \<open>
  A run in which no activation of \<open>handleOrderDetected\<close> is ever interrupted: each
  detection is followed at once by the return of its copy.
\<close>

fun botStepUninterrupted :: "orderCopyEngine \<Rightarrow> botState \<Rightarrow> botEvent \<Rightarrow> botState" where
  "botStepUninterrupted eng st (EvOrderDetected ord w env) =
     botStep eng (botStep eng st (EvOrderDetected ord w env)) (EvCopyReturned (length (awaiting st)))"
| "botStepUninterrupted eng st ev = botStep eng st ev"

definition botRunUninterrupted :: "orderCopyEngine \<Rightarrow> botState \<Rightarrow> botEvent list \<Rightarrow> botState" where
  "botRunUninterrupted eng st evs = foldl (botStepUninterrupted eng) st evs"

text \<open>Two invariants: the ledger holds at most one mapping per source hash; and, with no
  copy in flight, every source hash with a derived order is in the history, and has only
  one.\<close>

definition oneMappingPerSource :: "riskManager \<Rightarrow> bool" where
  "oneMappingPerSource rm = distinct (map fst (ordersByOriginal rm))"

definition settled :: "botState \<Rightarrow> bool" where
  "settled st =
     (awaiting st = []
      \<and> (\<forall>h. createdFor st h \<noteq> [] \<longrightarrow> isOrderCopied (ledger st) h)
      \<and> (\<forall>h. length (createdFor st h) \<le> 1))"

section \<open>Event ingestion (OrderMonitor)\<close>

datatype orderStatus = ACTIVE | INACTIVE | FILLED

record orderUpdate = order +
  status :: orderStatus

datatype monitorEvent =
    OrderDetected order string
  | OwnOrderDetected order
  | OrderFilled string string
  | OwnOrderFilled string string
  | OrderCancelled string string
  | OwnOrderCancelled string string

text \<open>
  What the JavaScript engine decides and the code does not: the order in which
  \<open>Array.prototype.sort\<close> leaves an array under an inconsistent comparator, and the order in
  which the event loop resumes suspended activations (a market found in the cache resumes
  before one that is looked up). Both are rearrangements of their argument.
\<close>

record eventLoop =
  sortInconsistent :: "orderUpdate list \<Rightarrow> orderUpdate list"
  resumeOrder :: "(order \<times> string) list \<Rightarrow> (order \<times> string) list"

text \<open>
  The comparator of \<open>updates.sort\<close>, \<open>Number(a.updateTime) - Number(b.updateTime)\<close>, is
  negative exactly when both times are present and the first is smaller. With a missing
  time it is \<open>NaN\<close>, which \<open>sort\<close> reads as zero. When an update without a time stands
  beside two updates that the comparator orders, the comparator is inconsistent (the update
  without a time equals both) and the result is the engine's. Otherwise the comparator is
  consistent and \<open>Array.prototype.sort\<close>, being stable, is the stable insertion by it.
  Update times are taken within the range where \<open>Number\<close> is exact.
\<close>

definition updateBefore :: "orderUpdate \<Rightarrow> orderUpdate \<Rightarrow> bool" where
  "updateBefore a b =
     (case (updateTime a, updateTime b) of (Some x, Some y) \<Rightarrow> x < y | _ \<Rightarrow> False)"

fun insertUpdate :: "orderUpdate \<Rightarrow> orderUpdate list \<Rightarrow> orderUpdate list" where
  "insertUpdate u [] = [u]"
| "insertUpdate u (v # vs) = (if updateBefore v u then v # insertUpdate u vs else u # v # vs)"

definition sortUpdates :: "eventLoop \<Rightarrow> orderUpdate list \<Rightarrow> orderUpdate list" where
  "sortUpdates loop us =
     (if None \<in> set (map updateTime us) \<and> list_ex (\<lambda>a. list_ex (updateBefore a) us) us
      then sortInconsistent loop us
      else foldr insertUpdate us [])"

definition monitorHandleOrderCancelled :: "string \<Rightarrow> order \<Rightarrow> string \<Rightarrow> monitorEvent list" where
  "monitorHandleOrderCancelled selfWalletAddress ord monitoredWallet =
     (if monitoredWallet = selfWalletAddress
      then [OwnOrderCancelled (orderHash ord) monitoredWallet]
      else [OrderCancelled (orderHash ord) monitoredWallet])"

definition monitorHandleOrderFilled :: "string \<Rightarrow> order \<Rightarrow> string \<Rightarrow> monitorEvent list" where
  "monitorHandleOrderFilled selfWalletAddress ord monitoredWallet =
     (if monitoredWallet = selfWalletAddress
      then [OwnOrderFilled (orderHash ord) monitoredWallet]
      else [OrderFilled (orderHash ord) monitoredWallet])"

text \<open>
  \<open>handleNewOrder\<close> is \<open>async\<close>: it runs up to \<open>await this.applyFilters(order)\<close> and is
  suspended there; every \<open>await\<close> gives control back to the caller, also when the market is
  cached. The first part returns the events emitted at once and, when the activation is
  suspended, the order it holds. \<open>applyFilters\<close> consults the market cache, the exchange and
  the clock; its verdict is the parameter \<open>passes\<close> of the second part.
\<close>

definition handleNewOrderStart ::
  "string \<Rightarrow> order \<Rightarrow> string \<Rightarrow> monitorEvent list \<times> (order \<times> string) option" where
  "handleNewOrderStart selfWalletAddress ord monitoredWallet =
     (if pendingFillAmount ord \<noteq> Some ''0'' then ([], None)
      else if monitoredWallet = selfWalletAddress then ([OwnOrderDetected ord], None)
      else if fillAmount ord \<noteq> ''0'' then ([], None)
      else ([], Some (ord, monitoredWallet)))"

definition handleNewOrderResume :: "(order \<Rightarrow> bool) \<Rightarrow> order \<times> string \<Rightarrow> monitorEvent list" where
  "handleNewOrderResume passes susp =
     (if passes (fst susp) then [OrderDetected (fst susp) (snd susp)] else [])"

text \<open>\<open>processOrderUpdate\<close> up to its first suspension.\<close>

definition processOrderUpdateStart ::
  "string \<Rightarrow> orderUpdate \<Rightarrow> string \<Rightarrow> monitorEvent list \<times> (order \<times> string) option" where
  "processOrderUpdateStart selfWalletAddress upd monitoredWallet =
     (case status upd of
        INACTIVE \<Rightarrow>
          (monitorHandleOrderCancelled selfWalletAddress (order.truncate upd) monitoredWallet, None)
      | FILLED \<Rightarrow>
          (monitorHandleOrderFilled selfWalletAddress (order.truncate upd) monitoredWallet, None)
      | ACTIVE \<Rightarrow> handleNewOrderStart selfWalletAddress (order.truncate upd) monitoredWallet)"

text \<open>All the events one update leads to, once its suspended part has run.\<close>

definition processOrderUpdate ::
  "(order \<Rightarrow> bool) \<Rightarrow> string \<Rightarrow> orderUpdate \<Rightarrow> string \<Rightarrow> monitorEvent list" where
  "processOrderUpdate passes selfWalletAddress upd monitoredWallet =
     (case processOrderUpdateStart selfWalletAddress upd monitoredWallet of
        (now, None) \<Rightarrow> now
      | (now, Some susp) \<Rightarrow> now @ handleNewOrderResume passes susp)"

datatype messageData = Updates "orderUpdate list" | NotAnArray

text \<open>
  \<open>handleOrderMessage\<close> is not \<open>async\<close>: its loop calls \<open>processOrderUpdate\<close> on the sorted
  updates without awaiting the promise, so each call runs up to its first suspension and the
  loop goes on. The result is the events emitted during the call and the activations left
  suspended, in the order they were started.
\<close>

definition handleOrderMessage ::
  "eventLoop \<Rightarrow> string \<Rightarrow> messageData \<Rightarrow> string
     \<Rightarrow> monitorEvent list \<times> (order \<times> string) list" where
  "handleOrderMessage loop selfWalletAddress msg monitoredWallet =
     (case msg of
        NotAnArray \<Rightarrow> ([], [])
      | Updates us \<Rightarrow>
          (let started = map (\<lambda>u. processOrderUpdateStart selfWalletAddress u monitoredWallet)
                             (sortUpdates loop us)
           in (concat (map fst started), List.map_filter snd started)))"

text \<open>The events of one batch in the order they are emitted: those of the call itself, then
  those of the suspended activations, which resume after the call has returned, in the order
  the event loop takes them.\<close>

definition batchEvents ::
  "eventLoop \<Rightarrow> (order \<Rightarrow> bool) \<Rightarrow> string \<Rightarrow> messageData \<Rightarrow> string
     \<Rightarrow> monitorEvent list" where
  "batchEvents loop passes selfWalletAddress msg monitoredWallet =
     (case handleOrderMessage loop selfWalletAddress msg monitoredWallet of
        (now, later) \<Rightarrow>
          now @ concat (map (handleNewOrderResume passes) (resumeOrder loop later)))"

text \<open>The events that report a detected order.\<close>

fun isDetection :: "monitorEvent \<Rightarrow> bool" where
  "isDetection (OrderDetected ord w) = True"
| "isDetection (OwnOrderDetected ord) = True"
| "isDetection ev = False"

section \<open>Connection manager (WebSocketClient)\<close>

datatype connectionState = Disconnected | Connecting | Connected | Reconnecting | Failed

text \<open>\<open>clientPresent\<close> says that \<open>this.client\<close> is not \<open>null\<close>; the \<open>Set\<close> of subscribed
  channels is the list of its members in insertion order.\<close>

record webSocketClient =
  clientPresent :: bool
  connectionState :: connectionState
  reconnectAttempts :: nat
  subscribedChannels :: "string list"

text \<open>What the client does that others can observe: the events it emits to its consumers
  and its calls on the transport: \<open>channels.get\<close> (with the \<open>rewind\<close> parameter, when one
  is passed), \<open>channel.subscribe(handler)\<close>, \<open>channel.unsubscribe()\<close>, \<open>channel.detach()\<close>
  and \<open>client.close()\<close>.\<close>

datatype wsAction =
    Emit string
  | ChannelGet string "string option"
  | ChannelSubscribe string
  | ChannelUnsubscribe string
  | ChannelDetach string
  | TransportClose

text \<open>A message handler, named by the wallet whose messages it takes.\<close>

datatype messageHandler = MessageHandler string

definition setAdd :: "string list \<Rightarrow> string \<Rightarrow> string list" where
  "setAdd xs x = (if x \<in> set xs then xs else xs @ [x])"

text \<open>\<open>subscribe(channelName, handler?, rewind = "10s")\<close>: the channel is obtained from the
  transport, the handler is attached only if one is given, and the name is added to the
  set.\<close>

definition subscribe ::
  "webSocketClient \<Rightarrow> string \<Rightarrow> messageHandler option \<Rightarrow> string
     \<Rightarrow> thrown + webSocketClient \<times> wsAction list" where
  "subscribe ws channelName handler rewind =
     (if \<not> clientPresent ws then Inl ClientNotConnected
      else Inr (ws\<lparr>subscribedChannels := setAdd (subscribedChannels ws) channelName\<rparr>,
                ChannelGet channelName (Some rewind)
                  # (case handler of
                       Some h \<Rightarrow> [ChannelSubscribe channelName]
                     | None \<Rightarrow> [])))"

text \<open>The loop of \<open>resubscribeChannels\<close>, which calls \<open>this.subscribe(channelName)\<close>:
  no handler, the default \<open>rewind\<close>. A failed \<open>subscribe\<close> is caught and logged. The loop
  awaits each call; the actions are listed in the order in which they are made.\<close>

fun resubscribeLoop ::
  "webSocketClient \<Rightarrow> string list \<Rightarrow> webSocketClient \<times> wsAction list" where
  "resubscribeLoop ws [] = (ws, [])"
| "resubscribeLoop ws (channelName # channels) =
     (case subscribe ws channelName None ''10s'' of
        Inl e \<Rightarrow> resubscribeLoop ws channels
      | Inr (ws', acts) \<Rightarrow>
          (case resubscribeLoop ws' channels of (ws'', acts') \<Rightarrow> (ws'', acts @ acts')))"

definition resubscribeChannels :: "webSocketClient \<Rightarrow> webSocketClient \<times> wsAction list" where
  "resubscribeChannels ws =
     (if \<not> clientPresent ws \<or> subscribedChannels ws = [] then (ws, [])
      else resubscribeLoop (ws\<lparr>subscribedChannels := []\<rparr>) (subscribedChannels ws))"

text \<open>The handler that \<open>setupConnectionHandlers\<close> registers for the transport's
  \<open>connected\<close> event: state, notification, counter, then the re-subscription.\<close>

definition onConnected :: "webSocketClient \<Rightarrow> webSocketClient \<times> wsAction list" where
  "onConnected ws =
     (let ws1 = ws\<lparr>connectionState := Connected\<rparr>;
          notified = [Emit ''connected''];
          ws2 = ws1\<lparr>reconnectAttempts := 0\<rparr>
      in case resubscribeChannels ws2 of (ws3, acts) \<Rightarrow> (ws3, notified @ acts))"

text \<open>\<open>unsubscribe\<close>, with \<open>channel.detach()\<close> taken to succeed.\<close>

definition unsubscribe :: "webSocketClient \<Rightarrow> string \<Rightarrow> webSocketClient \<times> wsAction list" where
  "unsubscribe ws channelName =
     (if \<not> clientPresent ws then (ws, [])
      else (ws\<lparr>subscribedChannels := removeAll channelName (subscribedChannels ws)\<rparr>,
            [ChannelGet channelName None, ChannelUnsubscribe channelName,
             ChannelDetach channelName]))"

fun unsubscribeLoop ::
  "webSocketClient \<Rightarrow> string list \<Rightarrow> webSocketClient \<times> wsAction list" where
  "unsubscribeLoop ws [] = (ws, [])"
| "unsubscribeLoop ws (channelName # channels) =
     (case unsubscribe ws channelName of (ws', acts) \<Rightarrow>
        (case unsubscribeLoop ws' channels of (ws'', acts') \<Rightarrow> (ws'', acts @ acts')))"

definition disconnect :: "webSocketClient \<Rightarrow> webSocketClient \<times> wsAction list" where
  "disconnect ws =
     (if \<not> clientPresent ws then (ws, [])
      else case unsubscribeLoop ws (subscribedChannels ws) of (ws', acts) \<Rightarrow>
             (ws'\<lparr>clientPresent := False, connectionState := Disconnected\<rparr>,
              acts @ [TransportClose, Emit ''disconnected'']))"

text \<open>
  The requirement of the specification on a run of the client's actions: when the
  \<open>connected\<close> notification is emitted, every registered channel has already been
  re-subscribed, that is, the client has already called the transport for it, be it only
  \<open>channels.get\<close>. \<open>beforeConnected\<close> is the part of the run before the notification.
\<close>

fun beforeConnected :: "wsAction list \<Rightarrow> wsAction list" where
  "beforeConnected [] = []"
| "beforeConnected (a # acts) =
     (if a = Emit ''connected'' then [] else a # beforeConnected acts)"

fun reestablishes :: "string \<Rightarrow> wsAction \<Rightarrow> bool" where
  "reestablishes c (ChannelGet c' r) = (c' = c)"
| "reestablishes c (ChannelSubscribe c') = (c' = c)"
| "reestablishes c a = False"

definition resubscribedWhenNotified :: "string list \<Rightarrow> wsAction list \<Rightarrow> bool" where
  "resubscribedWhenNotified registered acts =
     (Emit ''connected'' \<in> set acts \<longrightarrow>
        (\<forall>c \<in> set registered. \<exists>a \<in> set (beforeConnected acts). reestablishes c a))"

section \<open>Sample inputs\<close>

text \<open>Concrete orders, engines and collaborators on which the theorems below are run.\<close>

definition sampleOrder :: "string \<Rightarrow> int \<Rightarrow> order" where
  "sampleOrder h stake =
     \<lparr>orderHash = h, marketHash = ''0xmarket'', fillAmount = ''0'',
      pendingFillAmount = Some ''0'', totalBetSize = stake,
      percentageOdds = 50000000000000000000, expiry = 2209006800, apiExpiry = 1700000000,
      salt = ''1'', isMakerBettingOutcomeOne = True, signature = ''0xsig'',
      updateTime = Some 1700000000, sportXeventId = ''L1''\<rparr>"

definition sampleConfig :: "stake_method \<Rightarrow> int \<Rightarrow> int \<Rightarrow> copyingConfig" where
  "sampleConfig m lo hi =
     \<lparr>enabled = True, copyDelay = 0,
      oddsAdjustment = \<lparr>oddsMethod = OddsNone, oddsValue = 0, ensureLadderCompliance = False\<rparr>,
      stakeAdjustment = \<lparr>stakeMethod = m, stakeValue = 100, minStake = lo, maxStake = hi\<rparr>,
      autoCancelOnSource = True\<rparr>"

definition sampleEngine :: "copyingConfig \<Rightarrow> orderCopyEngine" where
  "sampleEngine cfg =
     \<lparr>config = cfg, walletAddress = ''0xbot'',
      metadataOpt = Some \<lparr>executorAddress = ''0xexec'', oddsLadderStepSize = 125\<rparr>,
      ladderStepSize = 125, baseToken = ''0xusdc''\<rparr>"

text \<open>Collaborators that sign every order and accept every submission under the given
  hash.\<close>

definition sampleCollaborators :: "string \<Rightarrow> collaborators" where
  "sampleCollaborators derivedHash =
     \<lparr>generateSalt = ''7'', nowSeconds = 1700000000,
      signOrder = (\<lambda>n. Inr ''0xsigned''),
      postOrders = (\<lambda>ss. Inr \<lparr>orders = [derivedHash], statuses = [''OK''], inserted = 1\<rparr>)\<rparr>"

text \<open>Collaborators that sign, and an exchange that inserts nothing.\<close>

definition rejectingCollaborators :: collaborators where
  "rejectingCollaborators =
     \<lparr>generateSalt = ''7'', nowSeconds = 1700000000,
      signOrder = (\<lambda>n. Inr ''0xsigned''),
      postOrders = (\<lambda>ss. Inr \<lparr>orders = [], statuses = [''INSUFFICIENT_BALANCE''],
                                  inserted = 0\<rparr>)\<rparr>"

definition sampleCancelCollaborators :: cancelCollaborators where
  "sampleCancelCollaborators =
     \<lparr>cancelGenerateSalt = ''9'', cancelCurrentTimestamp = 1700000001,
      signCancellation = (\<lambda>hs s t. Inr ''0xcancel'')\<rparr>"

definition sampleUpdate :: "orderStatus \<Rightarrow> string \<Rightarrow> int \<Rightarrow> orderUpdate" where
  "sampleUpdate st h t = order.extend ((sampleOrder h 5)\<lparr>updateTime := Some t\<rparr>) \<lparr>status = st\<rparr>"

text \<open>An event loop that leaves both orders as they are.\<close>

definition sampleLoop :: eventLoop where
  "sampleLoop = \<lparr>sortInconsistent = (\<lambda>us. us), resumeOrder = (\<lambda>xs. xs)\<rparr>"

text \<open>A batch that holds the same new order twice, and the run of the bot in which the
  second detection is handled before the first copy has returned.\<close>

definition duplicateBatch :: messageData where
  "duplicateBatch = Updates [sampleUpdate ACTIVE ''0xh'' 1, sampleUpdate ACTIVE ''0xh'' 1]"

definition duplicateRun :: "botEvent list" where
  "duplicateRun =
     [EvOrderDetected (order.truncate (sampleUpdate ACTIVE ''0xh'' 1)) ''0xw''
        (sampleCollaborators ''0xd1''),
      EvOrderDetected (order.truncate (sampleUpdate ACTIVE ''0xh'' 1)) ''0xw''
        (sampleCollaborators ''0xd2''),
      EvCopyReturned 0,
      EvCopyReturned 0]"

text \<open>A batch with a new order and its cancellation, and the run of the bot on the events
  in the order the monitor emits them.\<close>

definition cancelledBatch :: messageData where
  "cancelledBatch = Updates [sampleUpdate ACTIVE ''0xh'' 1, sampleUpdate INACTIVE ''0xh'' 2]"

definition cancelledRun :: "botEvent list" where
  "cancelledRun =
     [EvOrderCancelled ''0xh'' sampleCancelCollaborators,
      EvOrderDetected (order.truncate (sampleUpdate ACTIVE ''0xh'' 1)) ''0xw''
        (sampleCollaborators ''0xd1''),
      EvCopyReturned 0]"



definition sampleClient :: "string list \<Rightarrow> webSocketClient" where
  "sampleClient channels =
     \<lparr>clientPresent = True, connectionState = Disconnected, reconnectAttempts = 2,
      subscribedChannels = channels\<rparr>"

section \<open>The ledger: what is proved\<close>

lemma history_recordOrderMapping:
  "originalOrderHistory (recordOrderMapping rm ord h) = insert h (originalOrderHistory rm)"
  by (simp add: recordOrderMapping_def Let_def split: option.splits)

lemma history_applyOp:
  "originalOrderHistory rm \<subseteq> originalOrderHistory (applyOp rm op)"
  by (cases op)
     (auto simp: history_recordOrderMapping recordOrder_def removeOrder_def clear_def
           split: option.splits)

lemma history_applyOps:
  "originalOrderHistory rm \<subseteq> originalOrderHistory (applyOps rm ops)"
  unfolding applyOps_def
proof (induction ops arbitrary: rm)
  case Nil
  show ?case by simp
next
  case (Cons op ops)
  have "originalOrderHistory rm \<subseteq> originalOrderHistory (applyOp rm op)"
    by (rule history_applyOp)
  also have "\<dots> \<subseteq> originalOrderHistory (foldl applyOp (applyOp rm op) ops)"
    by (rule Cons.IH)
  finally show ?case by simp
qed

text \<open>
  C9. Once \<open>recordOrderMapping\<close> has been called for a source hash, \<open>isOrderCopied\<close> is true
  of that hash after any further run of ledger operations, \<open>removeOrder\<close> and \<open>clear\<close>
  included, and \<open>handleOrderDetected\<close> skips a later event for it before the copy engine is
  called.
\<close>

theorem copied_stays_copied:
  "isOrderCopied (applyOps (recordOrderMapping rm derived (orderHash ord)) ops) (orderHash ord)
   \<and> handleOrderDetectedStart eng env
        (applyOps (recordOrderMapping rm derived (orderHash ord)) ops) ord w = None"
proof -
  have "orderHash ord \<in> originalOrderHistory (recordOrderMapping rm derived (orderHash ord))"
    by (simp add: history_recordOrderMapping)
  then have "orderHash ord
      \<in> originalOrderHistory (applyOps (recordOrderMapping rm derived (orderHash ord)) ops)"
    using history_applyOps by blast
  then show ?thesis
    by (simp add: isOrderCopied_def handleOrderDetectedStart_def)
qed

theorem copied_stays_copied_witness:
  "isOrderCopied
     (applyOps
        (recordOrderMapping newRiskManager (sampleOrder ''0xd'' 10)
           (orderHash (sampleOrder ''0xh'' 5)))
        [RecordOrder (sampleOrder ''0xd'' 10), RemoveOrder ''0xd'', Clear])
     (orderHash (sampleOrder ''0xh'' 5))"
  using copied_stays_copied [of newRiskManager "sampleOrder ''0xd'' 10" "sampleOrder ''0xh'' 5"
      "[RecordOrder (sampleOrder ''0xd'' 10), RemoveOrder ''0xd'', Clear]"]
  by simp

text \<open>
  When no tracked order has the empty hash, \<open>findCopiedOrder\<close> returns an order exactly
  when the source hash has a mapping and the mapped hash is tracked. A mapping whose derived
  hash is not tracked yields \<open>undefined\<close>, and the cascading cancellation then sends no
  cancel request.
\<close>

lemma findCopiedOrder_iff:
  "mapGet (trackedOrders rm) [] = None \<Longrightarrow>
   ((findCopiedOrder rm h \<noteq> None) =
      (\<exists>d. mapGet (ordersByOriginal rm) h = Some d \<and> mapGet (trackedOrders rm) d \<noteq> None))
   \<and> (\<forall>d. mapGet (ordersByOriginal rm) h = Some d \<and> mapGet (trackedOrders rm) d = None
         \<longrightarrow> findCopiedOrder rm h = None \<and> botHandleOrderCancelled eng env rm h = [])"
  by (auto simp: findCopiedOrder_def botHandleOrderCancelled_def truthy_def Let_def
           split: option.splits)

lemma findCopiedOrder_iff_sample:
  "mapGet (trackedOrders (recordOrder
       (recordOrderMapping newRiskManager (sampleOrder ''0xd'' 10) ''0xh'')
       (sampleOrder ''0xd'' 10))) [] = None
   \<and> findCopiedOrder (recordOrder
       (recordOrderMapping newRiskManager (sampleOrder ''0xd'' 10) ''0xh'')
       (sampleOrder ''0xd'' 10)) ''0xh'' = Some (sampleOrder ''0xd'' 10)
   \<and> findCopiedOrder (recordOrderMapping newRiskManager (sampleOrder ''0xd'' 10) ''0xh'')
       ''0xh'' = None
   \<and> botHandleOrderCancelled (sampleEngine (sampleConfig StakeCopy 10 100))
       sampleCancelCollaborators
       (recordOrderMapping newRiskManager (sampleOrder ''0xd'' 10) ''0xh'') ''0xh'' = []"
  using findCopiedOrder_iff [of
      "recordOrder (recordOrderMapping newRiskManager (sampleOrder ''0xd'' 10) ''0xh'')
         (sampleOrder ''0xd'' 10)" "''0xh''"]
    findCopiedOrder_iff [of
      "recordOrderMapping newRiskManager (sampleOrder ''0xd'' 10) ''0xh''" "''0xh''"
      "sampleEngine (sampleConfig StakeCopy 10 100)" sampleCancelCollaborators]
  by (simp add: recordOrder_def recordOrderMapping_def newRiskManager_def mapGet_def
      findCopiedOrder_def truthy_def sampleOrder_def Let_def)


text \<open>Keys stay distinct under the map operations of the ledger.\<close>

lemma keys_mapSet: "fst ` set (mapSet m k v) = insert k (fst ` set m)"
  by (induction m k v rule: mapSet.induct) (simp_all add: insert_commute)

lemma distinct_mapSet: "distinct (map fst m) \<Longrightarrow> distinct (map fst (mapSet m k v))"
proof (induction m)
  case Nil
  show ?case by simp
next
  case (Cons p m)
  obtain k' v' where p: "p = (k', v')" by (cases p)
  show ?case
  proof (cases "k' = k")
    case True
    with Cons.prems p show ?thesis by simp
  next
    case False
    have "k' \<notin> fst ` set (mapSet m k v)"
      using Cons.prems p False unfolding keys_mapSet by simp
    with Cons p False show ?thesis by simp
  qed
qed

lemma keys_deleteFirstCopied: "set (map fst (deleteFirstCopied m h)) \<subseteq> set (map fst m)"
  by (induction m h rule: deleteFirstCopied.induct) auto

lemma distinct_deleteFirstCopied:
  "distinct (map fst m) \<Longrightarrow> distinct (map fst (deleteFirstCopied m h))"
proof (induction m h rule: deleteFirstCopied.induct)
  case (1 h)
  show ?case by simp
next
  case (2 originalHash copiedHash m h)
  then show ?case using keys_deleteFirstCopied [of m h] by auto
qed

lemma oneMapping_recordOrderMapping:
  "oneMappingPerSource rm \<Longrightarrow> oneMappingPerSource (recordOrderMapping rm ord h)"
  by (simp add: oneMappingPerSource_def recordOrderMapping_def Let_def distinct_mapSet
      split: option.splits)

section \<open>The quantization library: what is proved\<close>

lemma truncDiv_mult_cancel: "s \<noteq> 0 \<Longrightarrow> truncDiv (k * s) s = k"
proof -
  assume s: "s \<noteq> 0"
  have "\<bar>k * s\<bar> div \<bar>s\<bar> = \<bar>k\<bar>" using s by (simp add: abs_mult)
  moreover have "sgn (k * s) * sgn s = sgn k" using s
    by (simp add: sgn_mult mult.assoc flip: power2_eq_square) (simp add: sgn_if)
  ultimately show ?thesis
    by (simp add: truncDiv_def mult_sgn_abs)
qed

lemma roundOddsToLadder_cases:
  "roundOddsToLadder p stepSize =
     (case ladderStep stepSize of
        Inl e \<Rightarrow> Inl e
      | Inr step \<Rightarrow> if step = 0 then Inl DivisionByZero else Inr (truncDiv p step * step))"
  by (simp add: roundOddsToLadder_def bnDiv_def split: sum.splits)

lemma ladderStep_125: "ladderStep 125 = Inr 125000000000000000"
  by (simp add: ladderStep_def bnFromNumber_def MAX_SAFE_def)

lemma bnFromNumber_zero: "bnFromNumber 0 = Inr 0"
  by (simp add: bnFromNumber_def MAX_SAFE_def)

text \<open>
  C7. Ladder quantization is idempotent, for every price and every step size: quantizing a
  quantized price returns it unchanged, and where the quantization throws (a step size that
  is zero, fractional or beyond the safe integers) both sides throw the same exception.
\<close>

theorem roundOddsToLadder_idempotent:
  "(case roundOddsToLadder p stepSize of
      Inl e \<Rightarrow> Inl e
    | Inr q \<Rightarrow> roundOddsToLadder q stepSize) = roundOddsToLadder p stepSize"
  by (simp add: roundOddsToLadder_cases truncDiv_mult_cancel split: sum.splits)

theorem roundOddsToLadder_idempotent_witness:
  "roundOddsToLadder 50123456789012345678 125 = Inr 50000000000000000000
   \<and> roundOddsToLadder 50000000000000000000 125 = Inr 50000000000000000000"
  using roundOddsToLadder_idempotent [of 50123456789012345678 125]
  by (simp add: roundOddsToLadder_cases ladderStep_125 truncDiv_def)

text \<open>
  C8. Moving a price by \<open>s\<close> steps and then by \<open>- s\<close> steps returns the original price: when
  the first adjustment passes validation, the second one passes too and gives back \<open>p\<close>.
\<close>

theorem adjustOddsBySteps_round_trip:
  "adjustOddsBySteps p s stepSize = Inr r \<Longrightarrow> adjustOddsBySteps r (- s) stepSize = Inr p"
  by (auto simp: adjustOddsBySteps_def Let_def isValidOdds_def bnFromNumber_zero
           split: sum.splits if_splits)

theorem adjustOddsBySteps_round_trip_witness:
  "adjustOddsBySteps 50000000000000000000 4 125 = Inr 50500000000000000000
   \<and> adjustOddsBySteps 50500000000000000000 (- 4) 125 = Inr 50000000000000000000"
proof -
  have h: "adjustOddsBySteps 50000000000000000000 4 125 = Inr 50500000000000000000"
    by (simp add: adjustOddsBySteps_def ladderStep_125 bnFromNumber_def MAX_SAFE_def
        isValidOdds_def ODDS_PRECISION_def Let_def)
  show ?thesis using h adjustOddsBySteps_round_trip [OF h] by simp
qed

text \<open>The tests of the repository for the odds and stake utilities, run on the model.\<close>

lemma mathRound_of_int: "mathRound (of_int n) = n"
  unfolding mathRound_def by linarith

lemma mathRound_numeral: "mathRound (numeral k) = numeral k"
  using mathRound_of_int [of "numeral k"] by simp

lemma mathRound_0: "mathRound 0 = 0"
  using mathRound_of_int [of 0] by simp

text \<open>Evaluating the rounding to a double on numerals.\<close>

lemma normalise_numeral:
  "normalise (numeral k) q e =
     (if q < 2 ^ 52 \<and> - 1074 < e then normalise (pred_numeral k) (q * 2) (e - 1)
      else if 2 ^ 53 \<le> q then normalise (pred_numeral k) (q / 2) (e + 1)
      else (q, e))"
  by (simp add: numeral_eq_Suc)

lemma roundHalfEven_of_int: "roundHalfEven (of_int n) = n"
  by (simp add: roundHalfEven_def)

lemma roundHalfEven_numeral: "roundHalfEven (numeral k) = numeral k"
  using roundHalfEven_of_int [of "numeral k"] by simp

lemma floor_rat_divide: "\<lfloor>(of_int a :: rat) / of_int b\<rfloor> = a div b"
  by (rule floor_divide_of_int_eq)

lemma frac_rat_divide:
  assumes "0 < b"
  shows "(of_int a :: rat) / of_int b - of_int (a div b) = of_int (a mod b) / of_int b"
proof -
  have "a = a div b * b + a mod b" by simp
  then have "(of_int a :: rat) = of_int (a div b) * of_int b + of_int (a mod b)"
    by (metis of_int_add of_int_mult)
  then show ?thesis using assms by (simp add: field_simps)
qed

lemma roundHalfEven_divide:
  assumes "0 < b"
  shows "roundHalfEven (of_int a / of_int b) =
           (if 2 * (a mod b) < b then a div b
            else if b < 2 * (a mod b) then a div b + 1
            else if even (a div b) then a div b else a div b + 1)"
proof -
  have lt: "(of_int (a mod b) / (of_int b :: rat) < 1 / 2) = (2 * (a mod b) < b)"
    using assms
    by (simp add: field_simps flip: of_int_mult,
        metis of_int_less_iff of_int_mult of_int_numeral mult.commute)
  have gt: "(1 / 2 < of_int (a mod b) / (of_int b :: rat)) = (b < 2 * (a mod b))"
    using assms
    by (simp add: field_simps flip: of_int_mult,
        metis of_int_less_iff of_int_mult of_int_numeral mult.commute)
  show ?thesis
    unfolding roundHalfEven_def Let_def floor_rat_divide frac_rat_divide [OF assms] lt gt
    by simp
qed

lemma roundHalfEven_fraction:
  "roundHalfEven (numeral a / numeral b) =
     (if 2 * (numeral a mod numeral b) < (numeral b :: int) then numeral a div numeral b
      else if (numeral b :: int) < 2 * (numeral a mod numeral b) then numeral a div numeral b + 1
      else if even (numeral a div numeral b :: int) then numeral a div numeral b
      else numeral a div numeral b + 1)"
  using roundHalfEven_divide [of "numeral b" "numeral a"] by simp

lemma mathRound_fraction:
  "mathRound (numeral a / numeral b) = (2 * numeral a + numeral b) div (2 * numeral b)"
proof -
  have "(numeral a / numeral b + 1 / 2 :: rat)
          = of_int (2 * numeral a + numeral b) / of_int (2 * numeral b)"
    by (simp add: field_simps)
  then show ?thesis
    unfolding mathRound_def using floor_divide_of_int_eq by metis
qed

lemmas double_defs = doubleTimes_def toDouble_def twoToThe_def
  normalise_numeral roundHalfEven_numeral roundHalfEven_fraction

text \<open>
  The product is the double nearest to the product of the doubles nearest to its factors:
  \<open>1.005 * 100\<close> is just below \<open>100.5\<close> and rounds to 100 basis points, where the
  product of the decimals would round to 101; \<open>8.345 * 100\<close> is just above \<open>834.5\<close>.
\<close>

lemma doubleTimes_samples:
  "doubleTimes 10 100 = 1000"
  "doubleTimes 0 100 = 0"
  "doubleTimes (6667 / 100) 100 = 6667"
  "doubleTimes (1005 / 1000) 100 = 7072058789855231 / 70368744177664"
  "mathRound (doubleTimes (1005 / 1000) 100) = 100"
  "mathRound (1005 / 1000 * 100) = 101"
  "mathRound (doubleTimes (8345 / 1000) 100) = 835"
  by (simp_all add: double_defs mathRound_fraction)

lemmas odds_defs = adjustOddsBySteps_def adjustOddsByPercentage_def ladderStep_125
  bnFromNumber_def bnDiv_def truncDiv_def MAX_SAFE_def isValidOdds_def ODDS_PRECISION_def
  mathRound_numeral mathRound_0 mathRound_fraction double_defs Let_def

lemma tests_adjustOddsBySteps:
  "adjustOddsBySteps 50000000000000000000 1 125 = Inr 50125000000000000000"
  "adjustOddsBySteps 50000000000000000000 (- 1) 125 = Inr 49875000000000000000"
  "adjustOddsBySteps 50000000000000000000 0 125 = Inr 50000000000000000000"
  "adjustOddsBySteps 95000000000000000000 3 125 = Inr 95375000000000000000"
  "adjustOddsBySteps (- 1000000000000000000) 5 125 = Inl InvalidMakerOdds"
  "adjustOddsBySteps 100000000000000000001 5 125 = Inl InvalidMakerOdds"
  "adjustOddsBySteps 1000000000000000 (- 10) 125 = Inl AdjustedOddsNegative"
  "adjustOddsBySteps 99000000000000000000 10 125 = Inl AdjustedOddsOutOfRange"
  by (simp_all add: odds_defs)

lemma tests_adjustOddsByPercentage:
  "adjustOddsByPercentage 50000000000000000000 10 False 125 = Inr 55000000000000000000"
  "adjustOddsByPercentage 50000000000000000000 1 False 125 = Inr 50500000000000000000"
  "adjustOddsByPercentage 50000000000000000000 100 False 125 = Inr 100000000000000000000"
  "adjustOddsByPercentage 50000000000000000000 0 False 125 = Inr 50000000000000000000"
  by (simp_all add: odds_defs)

lemma tests_adjustStakeByPercentage:
  "adjustStakeByPercentage 1000000 50 = Inr 500000"
  "adjustStakeByPercentage 1000000 100 = Inr 1000000"
  "adjustStakeByPercentage 1000000 0 = Inr 0"
  "adjustStakeByPercentage 1234567 25 = Inr 308641"
  "adjustStakeByPercentage 1000000 (6667 / 100) = Inr 666700"
  "adjustStakeByPercentage 1000000 (- 1) = Inl PercentageOutOfRange"
  "adjustStakeByPercentage 1000000 1001 = Inl PercentageOutOfRange"
  "adjustStakeByPercentage 1000000 1000 = Inr 10000000"
  "adjustStakeByPercentage 1000000 (1005 / 1000) = Inr 10000"
  by (simp_all add: adjustStakeByPercentage_def odds_defs)

section \<open>The transform and submit stage: what is proved\<close>

lemmas sample_defs = sampleConfig_def sampleEngine_def sampleCollaborators_def sampleOrder_def
  sampleCancelCollaborators_def

lemmas copy_defs = copyOrder_def copyOrderBody_def adjustOdds_def adjustStake_def
  stakeByMethod_def validateStakeLimits_def failed_def first_def Let_def
  buildNewOrder_def buildCopiedOrder_def

text \<open>
  C2, as stated, fails. With the stake copied unchanged, a minimum of 10 and a maximum of
  100, an order of stake 5 is not rejected: \<open>adjustStake\<close> raises the stake to the minimum,
  the validation in \<open>copyOrder\<close> passes, and the order is signed and submitted with stake 10.
\<close>

theorem below_minimum_counterexample:
  "stakeByMethod (sampleEngine (sampleConfig StakeCopy 10 100))
       (totalBetSize (sampleOrder ''0xh'' 5)) = Inr 5
   \<and> minStake (stakeAdjustment (config (sampleEngine (sampleConfig StakeCopy 10 100)))) = 10
   \<and> success (fst (copyOrder (sampleEngine (sampleConfig StakeCopy 10 100))
                     (sampleCollaborators ''0xd'') (sampleOrder ''0xh'' 5) ''0xw''))
   \<and> map_option totalBetSize
        (copiedOrder (fst (copyOrder (sampleEngine (sampleConfig StakeCopy 10 100))
                     (sampleCollaborators ''0xd'') (sampleOrder ''0xh'' 5) ''0xw''))) = Some 10
   \<and> length (snd (copyOrder (sampleEngine (sampleConfig StakeCopy 10 100))
                     (sampleCollaborators ''0xd'') (sampleOrder ''0xh'' 5) ''0xw'')) = 2"
  by (simp add: sample_defs copy_defs)

text \<open>The limits in \<open>adjustStake\<close> clamp in both directions.\<close>

lemma adjustStake_clamps:
  assumes "stakeByMethod eng stake = Inr s"
  shows "adjustStake eng stake =
           Inr (if s < minStake (stakeAdjustment (config eng)) then minStake (stakeAdjustment (config eng))
                else if maxStake (stakeAdjustment (config eng)) < s then maxStake (stakeAdjustment (config eng))
                else s)"
  using assms by (simp add: adjustStake_def validateStakeLimits_def Let_def)

lemma newTotalBetSize_buildNewOrder:
  "newTotalBetSize (buildNewOrder eng env md ord od st) = st"
  by (simp add: buildNewOrder_def)

text \<open>
  C2, amended. A stake that the configured method puts strictly below the minimum is raised
  to the minimum, and one strictly above the maximum is lowered to the maximum; in both cases
  (the minimum not exceeding the maximum) the copy is not rejected for its stake: it requests
  a signature for an order with the clamped stake and, once the order is signed, submits
  exactly that signed order to the exchange; when the exchange inserts it, the copy succeeds
  and the copied order has the clamped stake.
\<close>

theorem stake_clamped_both_ways:
  assumes "enabled (config eng)"
    and "metadataOpt eng = Some md"
    and "adjustOdds eng (percentageOdds ord) = Inr odds'"
    and "stakeByMethod eng (totalBetSize ord) = Inr s"
    and "minStake (stakeAdjustment (config eng)) \<le> maxStake (stakeAdjustment (config eng))"
  shows "(\<exists>fresh.
            (\<exists>rest. snd (copyOrder eng env ord w) = SignOrder fresh # rest)
            \<and> newTotalBetSize fresh =
                (if s < minStake (stakeAdjustment (config eng))
                 then minStake (stakeAdjustment (config eng))
                 else if maxStake (stakeAdjustment (config eng)) < s
                 then maxStake (stakeAdjustment (config eng))
                 else s)
            \<and> (\<forall>sig. signOrder env fresh = Inr sig \<longrightarrow>
                   snd (copyOrder eng env ord w)
                     = [SignOrder fresh,
                        PostOrders [\<lparr>signedFields = fresh, signedSignature = sig\<rparr>]]
                   \<and> (\<forall>response.
                        postOrders env [\<lparr>signedFields = fresh, signedSignature = sig\<rparr>]
                          = Inr response \<and> inserted response \<noteq> 0 \<longrightarrow>
                        success (fst (copyOrder eng env ord w))
                        \<and> map_option totalBetSize (copiedOrder (fst (copyOrder eng env ord w)))
                            = Some (newTotalBetSize fresh))))
         \<and> (\<forall>r. copyErr (fst (copyOrder eng env ord w)) \<noteq> Some (StakeRejected r))"
proof -
  define lo where "lo = minStake (stakeAdjustment (config eng))"
  define hi where "hi = maxStake (stakeAdjustment (config eng))"
  define c where "c = (if s < lo then lo else if hi < s then hi else s)"
  define fresh where "fresh = buildNewOrder eng env md ord odds' c"
  have adj: "adjustStake eng (totalBetSize ord) = Inr c"
    using adjustStake_clamps [OF assms(4)] by (simp add: c_def lo_def hi_def)
  have "lo \<le> hi" using assms(5) by (simp add: lo_def hi_def)
  then have ok: "valid (validateStakeLimits c lo hi)"
    by (simp add: validateStakeLimits_def c_def)
  have first: "\<exists>rest. snd (copyOrder eng env ord w) = SignOrder fresh # rest"
    using assms(1-3) adj ok
    by (simp add: copyOrder_def copyOrderBody_def Let_def lo_def hi_def fresh_def
        split: sum.splits)
  have stake: "newTotalBetSize fresh = c"
    by (simp add: fresh_def newTotalBetSize_buildNewOrder)
  have sent: "snd (copyOrder eng env ord w)
                = [SignOrder fresh, PostOrders [\<lparr>signedFields = fresh, signedSignature = sig\<rparr>]]"
    if "signOrder env fresh = Inr sig" for sig
    using assms(1-3) adj ok that
    by (simp add: copyOrder_def copyOrderBody_def Let_def lo_def hi_def fresh_def
        split: sum.splits)
  have accepted: "success (fst (copyOrder eng env ord w))
              \<and> map_option totalBetSize (copiedOrder (fst (copyOrder eng env ord w)))
                  = Some (newTotalBetSize fresh)"
    if "signOrder env fresh = Inr sig"
      and "postOrders env [\<lparr>signedFields = fresh, signedSignature = sig\<rparr>] = Inr response"
      and "inserted response \<noteq> 0" for sig response
    using assms(1-3) adj ok that
    by (simp add: copyOrder_def copyOrderBody_def Let_def lo_def hi_def fresh_def
        buildCopiedOrder_def)
  have notRejected: "copyErr (fst (copyOrder eng env ord w)) \<noteq> Some (StakeRejected r)" for r
    using assms(1-3) adj ok
    by (simp add: copyOrder_def copyOrderBody_def failed_def Let_def lo_def hi_def
        split: sum.splits)
  from first stake sent accepted notRejected show ?thesis
    unfolding c_def lo_def hi_def by blast
qed

theorem stake_clamped_both_ways_witness:
  "snd (copyOrder (sampleEngine (sampleConfig StakeCopy 10 100))
          (sampleCollaborators ''0xd'') (sampleOrder ''0xh'' 5) ''0xw'')
     = [SignOrder (buildNewOrder (sampleEngine (sampleConfig StakeCopy 10 100))
                     (sampleCollaborators ''0xd'')
                     \<lparr>executorAddress = ''0xexec'', oddsLadderStepSize = 125\<rparr>
                     (sampleOrder ''0xh'' 5) 50000000000000000000 10),
        PostOrders [\<lparr>signedFields =
                       buildNewOrder (sampleEngine (sampleConfig StakeCopy 10 100))
                         (sampleCollaborators ''0xd'')
                         \<lparr>executorAddress = ''0xexec'', oddsLadderStepSize = 125\<rparr>
                         (sampleOrder ''0xh'' 5) 50000000000000000000 10,
                     signedSignature = ''0xsigned''\<rparr>]]
   \<and> map_option totalBetSize
        (copiedOrder (fst (copyOrder (sampleEngine (sampleConfig StakeCopy 10 100))
          (sampleCollaborators ''0xd'') (sampleOrder ''0xh'' 5) ''0xw''))) = Some 10
   \<and> snd (copyOrder (sampleEngine (sampleConfig StakeCopy 10 100))
          (sampleCollaborators ''0xd'') (sampleOrder ''0xh'' 500) ''0xw'')
     = [SignOrder (buildNewOrder (sampleEngine (sampleConfig StakeCopy 10 100))
                     (sampleCollaborators ''0xd'')
                     \<lparr>executorAddress = ''0xexec'', oddsLadderStepSize = 125\<rparr>
                     (sampleOrder ''0xh'' 500) 50000000000000000000 100),
        PostOrders [\<lparr>signedFields =
                       buildNewOrder (sampleEngine (sampleConfig StakeCopy 10 100))
                         (sampleCollaborators ''0xd'')
                         \<lparr>executorAddress = ''0xexec'', oddsLadderStepSize = 125\<rparr>
                         (sampleOrder ''0xh'' 500) 50000000000000000000 100,
                     signedSignature = ''0xsigned''\<rparr>]]
   \<and> map_option totalBetSize
        (copiedOrder (fst (copyOrder (sampleEngine (sampleConfig StakeCopy 10 100))
          (sampleCollaborators ''0xd'') (sampleOrder ''0xh'' 500) ''0xw''))) = Some 100"
  using stake_clamped_both_ways [of "sampleEngine (sampleConfig StakeCopy 10 100)"
      "\<lparr>executorAddress = ''0xexec'', oddsLadderStepSize = 125\<rparr>" "sampleOrder ''0xh'' 5"
      50000000000000000000 5 "sampleCollaborators ''0xd''" "''0xw''"]
    stake_clamped_both_ways [of "sampleEngine (sampleConfig StakeCopy 10 100)"
      "\<lparr>executorAddress = ''0xexec'', oddsLadderStepSize = 125\<rparr>" "sampleOrder ''0xh'' 500"
      50000000000000000000 500 "sampleCollaborators ''0xd''" "''0xw''"]
  by (simp add: sample_defs copy_defs)

lemma resume_failed: "\<not> success res \<Longrightarrow> handleOrderDetectedResume rm ord res = rm"
  by (simp add: handleOrderDetectedResume_def split: option.splits)

lemma copyOrder_disabled: "\<not> enabled (config eng) \<Longrightarrow> \<not> success (fst (copyOrder eng env ord w))"
  by (simp add: copyOrder_def failed_def)

lemma copyOrder_uninitialized:
  "metadataOpt eng = None \<Longrightarrow> \<not> success (fst (copyOrder eng env ord w))"
  by (simp add: copyOrder_def failed_def)

lemma copyOrder_success_iff:
  "success (fst (copyOrder eng env ord w)) \<longleftrightarrow>
     enabled (config eng) \<and>
     (\<exists>md od st sig resp.
        metadataOpt eng = Some md
        \<and> adjustOdds eng (percentageOdds ord) = Inr od
        \<and> adjustStake eng (totalBetSize ord) = Inr st
        \<and> valid (validateStakeLimits st (minStake (stakeAdjustment (config eng)))
                    (maxStake (stakeAdjustment (config eng))))
        \<and> signOrder env (buildNewOrder eng env md ord od st) = Inr sig
        \<and> postOrders env
              [\<lparr>signedFields = buildNewOrder eng env md ord od st, signedSignature = sig\<rparr>]
            = Inr resp
        \<and> inserted resp \<noteq> 0)"
  by (auto simp: copyOrder_def copyOrderBody_def failed_def Let_def
           split: option.splits sum.splits prod.splits if_splits)

lemma handleOrderDetected_failed:
  "\<not> success (fst (copyOrder eng env ord w)) \<Longrightarrow> fst (handleOrderDetected eng env rm ord w) = rm"
  by (cases "copyOrder eng env ord w")
     (simp add: handleOrderDetected_def handleOrderDetectedStart_def resume_failed)

text \<open>
  C6. A copy that fails leaves the ledger as it was: \<open>handleOrderDetected\<close> returns the
  ledger unchanged whenever \<open>copyOrder\<close> does not report success, and so does its second
  part for any failed result. Copying disabled, an engine without metadata, an exception or
  a rejection in the odds or stake validation, a signing service that throws, an exchange
  that throws and a response with zero insertions each make \<open>copyOrder\<close> fail. A mapping is
  recorded only by \<open>handleOrderDetected\<close>, after the successful return; \<open>copyOrder\<close> has no
  access to the ledger.
\<close>

theorem failed_copy_leaves_ledger:
  "(\<not> success (fst (copyOrder eng env ord w)) \<longrightarrow>
      fst (handleOrderDetected eng env rm ord w) = rm)
   \<and> (\<forall>res. \<not> success res \<longrightarrow> handleOrderDetectedResume rm ord res = rm)
   \<and> (\<not> enabled (config eng)
        \<or> metadataOpt eng = None
        \<or> (\<exists>e. adjustOdds eng (percentageOdds ord) = Inl e)
        \<or> (\<exists>e. adjustStake eng (totalBetSize ord) = Inl e)
        \<or> (\<exists>st. adjustStake eng (totalBetSize ord) = Inr st
                 \<and> \<not> valid (validateStakeLimits st (minStake (stakeAdjustment (config eng)))
                              (maxStake (stakeAdjustment (config eng)))))
        \<or> (\<forall>n. \<exists>e. signOrder env n = Inl e)
        \<or> (\<forall>ss. \<exists>e. postOrders env ss = Inl e)
        \<or> (\<forall>ss resp. postOrders env ss = Inr resp \<longrightarrow> inserted resp = 0)
      \<longrightarrow> \<not> success (fst (copyOrder eng env ord w))
          \<and> fst (handleOrderDetected eng env rm ord w) = rm)"
proof (intro conjI impI allI)
  show "fst (handleOrderDetected eng env rm ord w) = rm"
    if "\<not> success (fst (copyOrder eng env ord w))"
    using that by (rule handleOrderDetected_failed)
  show "handleOrderDetectedResume rm ord res = rm" if "\<not> success res" for res
    using that by (rule resume_failed)
  assume causes: "\<not> enabled (config eng)
        \<or> metadataOpt eng = None
        \<or> (\<exists>e. adjustOdds eng (percentageOdds ord) = Inl e)
        \<or> (\<exists>e. adjustStake eng (totalBetSize ord) = Inl e)
        \<or> (\<exists>st. adjustStake eng (totalBetSize ord) = Inr st
                 \<and> \<not> valid (validateStakeLimits st (minStake (stakeAdjustment (config eng)))
                              (maxStake (stakeAdjustment (config eng)))))
        \<or> (\<forall>n. \<exists>e. signOrder env n = Inl e)
        \<or> (\<forall>ss. \<exists>e. postOrders env ss = Inl e)
        \<or> (\<forall>ss resp. postOrders env ss = Inr resp \<longrightarrow> inserted resp = 0)"
  show nosuccess: "\<not> success (fst (copyOrder eng env ord w))"
  proof
    assume "success (fst (copyOrder eng env ord w))"
    then obtain md od st sig resp where ok:
      "enabled (config eng)" "metadataOpt eng = Some md"
      "adjustOdds eng (percentageOdds ord) = Inr od"
      "adjustStake eng (totalBetSize ord) = Inr st"
      "valid (validateStakeLimits st (minStake (stakeAdjustment (config eng)))
                    (maxStake (stakeAdjustment (config eng))))"
      "signOrder env (buildNewOrder eng env md ord od st) = Inr sig"
      "postOrders env
              [\<lparr>signedFields = buildNewOrder eng env md ord od st, signedSignature = sig\<rparr>]
            = Inr resp"
      "inserted resp \<noteq> 0"
      unfolding copyOrder_success_iff by blast
    from causes ok show False
      by (metis option.distinct(1) sum.distinct(1) sum.inject(2))
  qed
  then show "fst (handleOrderDetected eng env rm ord w) = rm"
    by (rule handleOrderDetected_failed)
qed

theorem failed_copy_leaves_ledger_witness:
  "copyErr (fst (copyOrder (sampleEngine (sampleConfig StakeCopy 10 100))
                   rejectingCollaborators (sampleOrder ''0xh'' 50) ''0xw''))
     = Some (SubmissionFailed (Some ''INSUFFICIENT_BALANCE''))
   \<and> length (snd (copyOrder (sampleEngine (sampleConfig StakeCopy 10 100))
                   rejectingCollaborators (sampleOrder ''0xh'' 50) ''0xw'')) = 2
   \<and> \<not> success (fst (copyOrder (sampleEngine (sampleConfig StakeCopy 10 100))
                   rejectingCollaborators (sampleOrder ''0xh'' 50) ''0xw''))
   \<and> fst (handleOrderDetected (sampleEngine (sampleConfig StakeCopy 10 100))
            rejectingCollaborators newRiskManager (sampleOrder ''0xh'' 50) ''0xw'')
       = newRiskManager"
proof -
  have zero: "\<forall>ss resp. postOrders rejectingCollaborators ss = Inr resp \<longrightarrow> inserted resp = 0"
    by (auto simp: rejectingCollaborators_def)
  have err: "copyErr (fst (copyOrder (sampleEngine (sampleConfig StakeCopy 10 100))
                   rejectingCollaborators (sampleOrder ''0xh'' 50) ''0xw''))
               = Some (SubmissionFailed (Some ''INSUFFICIENT_BALANCE''))
             \<and> length (snd (copyOrder (sampleEngine (sampleConfig StakeCopy 10 100))
                   rejectingCollaborators (sampleOrder ''0xh'' 50) ''0xw'')) = 2"
    by (simp add: rejectingCollaborators_def sample_defs copy_defs)
  show ?thesis
    using err zero
      failed_copy_leaves_ledger [of "sampleEngine (sampleConfig StakeCopy 10 100)"
        rejectingCollaborators "sampleOrder ''0xh'' 50" "''0xw''" newRiskManager]
    by blast
qed

section \<open>The order monitor: what is proved\<close>

lemmas monitor_defs = processOrderUpdate_def processOrderUpdateStart_def
  handleNewOrderStart_def handleNewOrderResume_def monitorHandleOrderCancelled_def
  monitorHandleOrderFilled_def

text \<open>The branches of \<open>processOrderUpdate\<close> and \<open>handleNewOrder\<close>, one at a time.\<close>

lemma classify_inactive:
  "status upd = INACTIVE \<Longrightarrow>
     processOrderUpdate passes self upd w =
       (if w = self then [OwnOrderCancelled (orderHash upd) w]
        else [OrderCancelled (orderHash upd) w])"
  by (simp add: monitor_defs order.defs)

lemma classify_filled:
  "status upd = FILLED \<Longrightarrow>
     processOrderUpdate passes self upd w =
       (if w = self then [OwnOrderFilled (orderHash upd) w]
        else [OrderFilled (orderHash upd) w])"
  by (simp add: monitor_defs order.defs)

lemma classify_pending:
  "status upd = ACTIVE \<Longrightarrow> pendingFillAmount upd \<noteq> Some ''0'' \<Longrightarrow>
     processOrderUpdate passes self upd w = []"
  by (simp add: monitor_defs order.defs)

lemma classify_stale:
  "status upd = ACTIVE \<Longrightarrow> w \<noteq> self \<Longrightarrow> fillAmount upd \<noteq> ''0'' \<Longrightarrow>
     processOrderUpdate passes self upd w = []"
  by (simp add: monitor_defs order.defs)

lemma classify_own:
  "status upd = ACTIVE \<Longrightarrow> pendingFillAmount upd = Some ''0'' \<Longrightarrow> w = self \<Longrightarrow>
     processOrderUpdate passes self upd w = [OwnOrderDetected (order.truncate upd)]"
  by (simp add: monitor_defs order.defs)

lemma classify_candidate:
  "status upd = ACTIVE \<Longrightarrow> pendingFillAmount upd = Some ''0'' \<Longrightarrow> w \<noteq> self \<Longrightarrow>
     fillAmount upd = ''0'' \<Longrightarrow>
     processOrderUpdate passes self upd w =
       (if passes (order.truncate upd) then [OrderDetected (order.truncate upd) w] else [])"
  by (simp add: monitor_defs order.defs)

lemma classify_detection:
  assumes "ev \<in> set (processOrderUpdate passes self upd w)" and "isDetection ev"
  shows "status upd = ACTIVE \<and> pendingFillAmount upd = Some ''0''
         \<and> (w \<noteq> self \<longrightarrow> fillAmount upd = ''0'' \<and> passes (order.truncate upd)
               \<and> ev = OrderDetected (order.truncate upd) w)"
proof (cases "status upd")
  case ACTIVE
  show ?thesis
  proof (cases "pendingFillAmount upd = Some ''0''")
    case False
    with ACTIVE assms(1) show ?thesis by (simp add: classify_pending)
  next
    case pending: True
    show ?thesis
    proof (cases "w = self")
      case True
      with ACTIVE pending show ?thesis by simp
    next
      case other: False
      show ?thesis
      proof (cases "fillAmount upd = ''0''")
        case False
        with ACTIVE other assms(1) show ?thesis by (simp add: classify_stale)
      next
        case True
        with ACTIVE pending other assms(1) show ?thesis
          by (simp add: classify_candidate split: if_splits)
      qed
    qed
  qed
next
  case INACTIVE
  with assms show ?thesis by (auto simp: classify_inactive split: if_splits)
next
  case FILLED
  with assms show ?thesis by (auto simp: classify_filled split: if_splits)
qed

text \<open>
  C5. An \<open>INACTIVE\<close> update yields a cancellation event and a \<open>FILLED\<close> update a fill
  event (the own-wallet variant for the bot's own wallet). An \<open>ACTIVE\<close> update whose
  \<open>pendingFillAmount\<close> is not \<open>"0"\<close> yields no event at all, and so does one of a monitored
  wallet whose \<open>fillAmount\<close> is not \<open>"0"\<close>. A detection event is emitted only for an
  \<open>ACTIVE\<close> update with \<open>pendingFillAmount\<close> \<open>"0"\<close> and, for a monitored wallet, with
  \<open>fillAmount\<close> \<open>"0"\<close> and the filters passed; and under these conditions it is emitted.
\<close>

theorem classification:
  "(status upd = INACTIVE \<longrightarrow>
      processOrderUpdate passes self upd w =
        (if w = self then [OwnOrderCancelled (orderHash upd) w]
         else [OrderCancelled (orderHash upd) w]))
   \<and> (status upd = FILLED \<longrightarrow>
      processOrderUpdate passes self upd w =
        (if w = self then [OwnOrderFilled (orderHash upd) w]
         else [OrderFilled (orderHash upd) w]))
   \<and> (status upd = ACTIVE \<and> pendingFillAmount upd \<noteq> Some ''0'' \<longrightarrow>
      processOrderUpdate passes self upd w = [])
   \<and> (status upd = ACTIVE \<and> w \<noteq> self \<and> fillAmount upd \<noteq> ''0'' \<longrightarrow>
      processOrderUpdate passes self upd w = [])
   \<and> (status upd = ACTIVE \<and> pendingFillAmount upd = Some ''0'' \<and> w = self \<longrightarrow>
      processOrderUpdate passes self upd w = [OwnOrderDetected (order.truncate upd)])
   \<and> (status upd = ACTIVE \<and> pendingFillAmount upd = Some ''0'' \<and> w \<noteq> self
        \<and> fillAmount upd = ''0'' \<longrightarrow>
      processOrderUpdate passes self upd w =
        (if passes (order.truncate upd) then [OrderDetected (order.truncate upd) w] else []))
   \<and> (\<forall>ev \<in> set (processOrderUpdate passes self upd w).
        isDetection ev \<longrightarrow>
          status upd = ACTIVE \<and> pendingFillAmount upd = Some ''0''
          \<and> (w \<noteq> self \<longrightarrow> fillAmount upd = ''0'' \<and> passes (order.truncate upd)
                \<and> ev = OrderDetected (order.truncate upd) w))"
proof -
  have c1: "status upd = INACTIVE \<longrightarrow>
      processOrderUpdate passes self upd w =
        (if w = self then [OwnOrderCancelled (orderHash upd) w]
         else [OrderCancelled (orderHash upd) w])"
    using classify_inactive by blast
  have c2: "status upd = FILLED \<longrightarrow>
      processOrderUpdate passes self upd w =
        (if w = self then [OwnOrderFilled (orderHash upd) w]
         else [OrderFilled (orderHash upd) w])"
    using classify_filled by blast
  have c3: "status upd = ACTIVE \<and> pendingFillAmount upd \<noteq> Some ''0'' \<longrightarrow>
      processOrderUpdate passes self upd w = []"
    using classify_pending by blast
  have c4: "status upd = ACTIVE \<and> w \<noteq> self \<and> fillAmount upd \<noteq> ''0'' \<longrightarrow>
      processOrderUpdate passes self upd w = []"
    using classify_stale by blast
  have c5: "status upd = ACTIVE \<and> pendingFillAmount upd = Some ''0'' \<and> w = self \<longrightarrow>
      processOrderUpdate passes self upd w = [OwnOrderDetected (order.truncate upd)]"
    using classify_own by blast
  have c6: "status upd = ACTIVE \<and> pendingFillAmount upd = Some ''0'' \<and> w \<noteq> self
        \<and> fillAmount upd = ''0'' \<longrightarrow>
      processOrderUpdate passes self upd w =
        (if passes (order.truncate upd) then [OrderDetected (order.truncate upd) w] else [])"
    using classify_candidate by blast
  have c7: "\<forall>ev \<in> set (processOrderUpdate passes self upd w).
        isDetection ev \<longrightarrow>
          status upd = ACTIVE \<and> pendingFillAmount upd = Some ''0''
          \<and> (w \<noteq> self \<longrightarrow> fillAmount upd = ''0'' \<and> passes (order.truncate upd)
                \<and> ev = OrderDetected (order.truncate upd) w)"
    using classify_detection by blast
  from c1 c2 c3 c4 c5 c6 c7 show ?thesis
    by - ((rule conjI, assumption)+, assumption)
qed

lemma sampleUpdate_fields:
  "status (sampleUpdate st h t) = st"
  "orderHash (sampleUpdate st h t) = h"
  "pendingFillAmount (sampleUpdate st h t) = Some ''0''"
  "fillAmount (sampleUpdate st h t) = ''0''"
  by (simp_all add: sampleUpdate_def sampleOrder_def order.defs)

theorem classification_witness:
  "processOrderUpdate (\<lambda>ord. True) ''0xbot'' (sampleUpdate INACTIVE ''0xh'' 2) ''0xw''
     = [OrderCancelled ''0xh'' ''0xw'']
   \<and> processOrderUpdate (\<lambda>ord. True) ''0xbot'' (sampleUpdate FILLED ''0xh'' 2) ''0xw''
     = [OrderFilled ''0xh'' ''0xw'']
   \<and> processOrderUpdate (\<lambda>ord. True) ''0xbot''
        ((sampleUpdate ACTIVE ''0xh'' 2)\<lparr>pendingFillAmount := Some ''1000000''\<rparr>) ''0xw'' = []
   \<and> processOrderUpdate (\<lambda>ord. True) ''0xbot''
        ((sampleUpdate ACTIVE ''0xh'' 2)\<lparr>fillAmount := ''1000000''\<rparr>) ''0xw'' = []
   \<and> processOrderUpdate (\<lambda>ord. True) ''0xbot'' (sampleUpdate ACTIVE ''0xh'' 2) ''0xw''
     = [OrderDetected (order.truncate (sampleUpdate ACTIVE ''0xh'' 2)) ''0xw'']"
proof -
  have a: "processOrderUpdate (\<lambda>ord. True) ''0xbot'' (sampleUpdate INACTIVE ''0xh'' 2) ''0xw''
     = [OrderCancelled ''0xh'' ''0xw'']"
    using classification [of "sampleUpdate INACTIVE ''0xh'' 2" "\<lambda>ord. True" "''0xbot''" "''0xw''",
        THEN conjunct1]
    by (simp add: sampleUpdate_fields)
  have b: "processOrderUpdate (\<lambda>ord. True) ''0xbot'' (sampleUpdate FILLED ''0xh'' 2) ''0xw''
     = [OrderFilled ''0xh'' ''0xw'']"
    using classification [of "sampleUpdate FILLED ''0xh'' 2" "\<lambda>ord. True" "''0xbot''" "''0xw''",
        THEN conjunct2, THEN conjunct1]
    by (simp add: sampleUpdate_fields)
  have c: "processOrderUpdate (\<lambda>ord. True) ''0xbot''
        ((sampleUpdate ACTIVE ''0xh'' 2)\<lparr>pendingFillAmount := Some ''1000000''\<rparr>) ''0xw'' = []"
    using classification [of "(sampleUpdate ACTIVE ''0xh'' 2)\<lparr>pendingFillAmount := Some ''1000000''\<rparr>"
        "\<lambda>ord. True" "''0xbot''" "''0xw''", THEN conjunct2, THEN conjunct2, THEN conjunct1]
    by (simp add: sampleUpdate_fields)
  have d: "processOrderUpdate (\<lambda>ord. True) ''0xbot''
        ((sampleUpdate ACTIVE ''0xh'' 2)\<lparr>fillAmount := ''1000000''\<rparr>) ''0xw'' = []"
    using classification [of "(sampleUpdate ACTIVE ''0xh'' 2)\<lparr>fillAmount := ''1000000''\<rparr>"
        "\<lambda>ord. True" "''0xbot''" "''0xw''",
        THEN conjunct2, THEN conjunct2, THEN conjunct2, THEN conjunct1]
    by (simp add: sampleUpdate_fields)
  have e: "processOrderUpdate (\<lambda>ord. True) ''0xbot'' (sampleUpdate ACTIVE ''0xh'' 2) ''0xw''
     = [OrderDetected (order.truncate (sampleUpdate ACTIVE ''0xh'' 2)) ''0xw'']"
    using classification [of "sampleUpdate ACTIVE ''0xh'' 2" "\<lambda>ord. True" "''0xbot''" "''0xw''",
        THEN conjunct2, THEN conjunct2, THEN conjunct2, THEN conjunct2, THEN conjunct2,
        THEN conjunct1]
    by (simp add: sampleUpdate_fields)
  from a b c d e show ?thesis
    by - ((rule conjI, assumption)+, assumption)
qed

text \<open>
  C4 on the code. A batch for a monitored wallet holds an \<open>ACTIVE\<close> update of time 1 and
  the \<open>INACTIVE\<close> update of the same order of time 2. The sort puts them in this order and
  \<open>processOrderUpdate\<close> is called in this order, but the first call is suspended at
  \<open>await this.applyFilters(order)\<close> and is not awaited by the loop: the cancellation is
  emitted first, the detection after it.
\<close>

theorem cancellation_overtakes_detection:
  "sortUpdates sampleLoop [sampleUpdate ACTIVE ''0xh'' 1, sampleUpdate INACTIVE ''0xh'' 2]
     = [sampleUpdate ACTIVE ''0xh'' 1, sampleUpdate INACTIVE ''0xh'' 2]
   \<and> batchEvents sampleLoop (\<lambda>ord. True) ''0xbot'' cancelledBatch ''0xw''
     = [OrderCancelled ''0xh'' ''0xw'',
        OrderDetected (order.truncate (sampleUpdate ACTIVE ''0xh'' 1)) ''0xw'']"
  by (simp add: cancelledBatch_def sampleLoop_def batchEvents_def handleOrderMessage_def
      sortUpdates_def updateBefore_def monitor_defs sampleUpdate_def sampleOrder_def order.defs
      List.map_filter_def)

text \<open>The calls themselves are made in ascending order of update time: when every update
  carries a time, the sort keeps the updates and leaves no later update before an earlier
  one, whatever the engine.\<close>

lemma set_insertUpdate: "set (insertUpdate u vs) = insert u (set vs)"
  by (induction vs) auto

lemma sortUpdates_timed:
  "None \<notin> set (map updateTime us) \<Longrightarrow> sortUpdates loop us = foldr insertUpdate us []"
  by (simp add: sortUpdates_def)

lemma set_foldr_insertUpdate: "set (foldr insertUpdate us []) = set us"
  by (induction us) (simp_all add: set_insertUpdate)

lemma set_sortUpdates:
  "None \<notin> set (map updateTime us) \<Longrightarrow> set (sortUpdates loop us) = set us"
  by (simp add: sortUpdates_timed set_foldr_insertUpdate)

lemma length_insertUpdate: "length (insertUpdate u vs) = Suc (length vs)"
  by (induction vs) auto

lemma length_foldr_insertUpdate: "length (foldr insertUpdate us []) = length us"
  by (induction us) (simp_all add: length_insertUpdate)

lemma length_sortUpdates:
  "None \<notin> set (map updateTime us) \<Longrightarrow> length (sortUpdates loop us) = length us"
  by (simp add: sortUpdates_timed length_foldr_insertUpdate)

lemma sorted_insertUpdate:
  assumes "updateTime u \<noteq> None" "\<forall>v \<in> set vs. updateTime v \<noteq> None"
    and "sorted_wrt (\<lambda>a b. \<not> updateBefore b a) vs"
  shows "sorted_wrt (\<lambda>a b. \<not> updateBefore b a) (insertUpdate u vs)"
  using assms
proof (induction vs)
  case Nil
  then show ?case by simp
next
  case (Cons v vs)
  show ?case
  proof (cases "updateBefore v u")
    case True
    then have "\<not> updateBefore u v"
      by (auto simp: updateBefore_def split: option.splits)
    with True Cons show ?thesis
      by (auto simp: set_insertUpdate)
  next
    case False
    have "\<not> updateBefore x u" if "x \<in> set vs" for x
    proof -
      have "\<not> updateBefore x v" using Cons.prems(3) that by simp
      moreover have "updateTime x \<noteq> None" "updateTime v \<noteq> None"
        using Cons.prems(2) that by simp_all
      ultimately show ?thesis
        using False Cons.prems(1) by (auto simp: updateBefore_def split: option.splits)
    qed
    with False Cons.prems(3) show ?thesis by auto
  qed
qed

lemma sorted_foldr_insertUpdate:
  "\<forall>u \<in> set us. updateTime u \<noteq> None \<Longrightarrow>
     sorted_wrt (\<lambda>a b. \<not> updateBefore b a) (foldr insertUpdate us [])"
proof (induction us)
  case Nil
  show ?case by simp
next
  case (Cons u us)
  have "sorted_wrt (\<lambda>a b. \<not> updateBefore b a) (insertUpdate u (foldr insertUpdate us []))"
    using Cons by (intro sorted_insertUpdate) (simp_all add: set_foldr_insertUpdate)
  then show ?case by simp
qed

lemma sortUpdates_ascending:
  assumes "\<forall>u \<in> set us. updateTime u \<noteq> None"
  shows "sorted_wrt (\<lambda>a b. \<not> updateBefore b a) (sortUpdates loop us)"
proof -
  have "None \<notin> set (map updateTime us)" using assms by auto
  then show ?thesis
    using sorted_foldr_insertUpdate [OF assms] by (simp add: sortUpdates_timed)
qed

section \<open>The bot: what is proved\<close>

text \<open>
  C1 on the code. A batch of a monitored wallet holds the same new order twice. The monitor
  emits two \<open>orderDetected\<close> events; the second is handled while the copy of the first is
  still in flight, so both activations of \<open>handleOrderDetected\<close> pass the \<open>isOrderCopied\<close>
  check, both copies are submitted and accepted, and two derived orders exist for one source
  hash. The ledger records the first of them only; the second \<open>recordOrderMapping\<close> finds
  the hash already mapped.
\<close>

theorem duplicate_copy_in_flight:
  "batchEvents sampleLoop (\<lambda>ord. True) ''0xbot'' duplicateBatch ''0xw''
     = [OrderDetected (order.truncate (sampleUpdate ACTIVE ''0xh'' 1)) ''0xw'',
        OrderDetected (order.truncate (sampleUpdate ACTIVE ''0xh'' 1)) ''0xw'']
   \<and> createdFor (botRun (sampleEngine (sampleConfig StakeCopy 1 100)) newBot duplicateRun)
        ''0xh'' = [''0xd1'', ''0xd2'']
   \<and> ordersByOriginal
        (ledger (botRun (sampleEngine (sampleConfig StakeCopy 1 100)) newBot duplicateRun))
       = [(''0xh'', ''0xd1'')]"
  by (simp add: duplicateBatch_def duplicateRun_def sampleLoop_def
      batchEvents_def handleOrderMessage_def sortUpdates_def updateBefore_def
      monitor_defs sampleUpdate_def order.defs List.map_filter_def
      botRun_def newBot_def newRiskManager_def createdFor_def
      handleOrderDetectedStart_def handleOrderDetectedResume_def isOrderCopied_def
      recordOrderMapping_def mapGet_def truthy_def
      sample_defs copy_defs)

text \<open>The events of the batch with a new order and its cancellation, handled in the order
  they are emitted: the cancellation finds no copy and cancels nothing, and the order is
  copied afterwards.\<close>

lemma copy_of_cancelled_source:
  "cancelsSent (botRun (sampleEngine (sampleConfig StakeCopy 1 100)) newBot cancelledRun) = []
   \<and> createdFor (botRun (sampleEngine (sampleConfig StakeCopy 1 100)) newBot cancelledRun)
        ''0xh'' = [''0xd1'']"
  by (simp add: cancelledRun_def sampleUpdate_def order.defs
      botRun_def newBot_def newRiskManager_def createdFor_def
      botHandleOrderCancelled_def findCopiedOrder_def
      handleOrderDetectedStart_def handleOrderDetectedResume_def isOrderCopied_def
      recordOrderMapping_def mapGet_def truthy_def
      sample_defs copy_defs)

text \<open>What does hold in every run, interleaved or not: the history never shrinks, so a
  source hash once recorded is skipped before the copy engine is called; and the ledger
  holds at most one mapping per source hash.\<close>

lemma history_resume:
  "originalOrderHistory rm \<subseteq> originalOrderHistory (handleOrderDetectedResume rm ord res)"
  by (auto simp: handleOrderDetectedResume_def history_recordOrderMapping split: option.splits)

lemma history_botStep:
  "originalOrderHistory (ledger st) \<subseteq> originalOrderHistory (ledger (botStep eng st ev))"
proof (cases ev)
  case (EvOrderDetected ord w env)
  then show ?thesis by (simp split: option.splits prod.splits)
next
  case (EvCopyReturned i)
  then show ?thesis using history_resume by simp
qed (simp_all add: recordOrder_def removeOrder_def split: option.splits)

lemma history_botRun:
  "originalOrderHistory (ledger st) \<subseteq> originalOrderHistory (ledger (botRun eng st evs))"
  unfolding botRun_def
proof (induction evs arbitrary: st)
  case Nil
  show ?case by simp
next
  case (Cons ev evs)
  have "originalOrderHistory (ledger st) \<subseteq> originalOrderHistory (ledger (botStep eng st ev))"
    by (rule history_botStep)
  also have "\<dots> \<subseteq> originalOrderHistory (ledger (foldl (botStep eng) (botStep eng st ev) evs))"
    by (rule Cons.IH)
  finally show ?case by simp
qed

lemma recorded_source_is_skipped:
  assumes "isOrderCopied (ledger st) (orderHash ord)"
  shows "botStep eng (botRun eng st evs) (EvOrderDetected ord w env) = botRun eng st evs"
proof -
  have "orderHash ord \<in> originalOrderHistory (ledger (botRun eng st evs))"
    using assms history_botRun by (auto simp: isOrderCopied_def)
  then show ?thesis
    by (simp add: handleOrderDetectedStart_def isOrderCopied_def)
qed

lemma oneMapping_botStep:
  "oneMappingPerSource (ledger st) \<Longrightarrow> oneMappingPerSource (ledger (botStep eng st ev))"
proof (cases ev)
  case (EvOrderDetected ord w env)
  assume "oneMappingPerSource (ledger st)"
  with EvOrderDetected show ?thesis by (simp split: option.splits prod.splits)
next
  case (EvCopyReturned i)
  assume "oneMappingPerSource (ledger st)"
  with EvCopyReturned show ?thesis
    by (simp add: handleOrderDetectedResume_def oneMapping_recordOrderMapping
        split: option.splits)
next
  case (EvOwnOrderDetected ord)
  assume "oneMappingPerSource (ledger st)"
  with EvOwnOrderDetected show ?thesis by (simp add: oneMappingPerSource_def recordOrder_def)
next
  case (EvOwnOrderFilled h)
  assume "oneMappingPerSource (ledger st)"
  with EvOwnOrderFilled show ?thesis
    by (simp add: oneMappingPerSource_def removeOrder_def distinct_deleteFirstCopied
        split: option.splits)
next
  case (EvOwnOrderCancelled h)
  assume "oneMappingPerSource (ledger st)"
  with EvOwnOrderCancelled show ?thesis
    by (simp add: oneMappingPerSource_def removeOrder_def distinct_deleteFirstCopied
        split: option.splits)
qed simp_all

lemma oneMapping_botRun:
  "oneMappingPerSource (ledger st) \<Longrightarrow> oneMappingPerSource (ledger (botRun eng st evs))"
  unfolding botRun_def
  by (induction evs arbitrary: st) (simp_all add: oneMapping_botStep)

lemma oneMapping_newBot: "oneMappingPerSource (ledger (botRun eng newBot evs))"
  by (rule oneMapping_botRun) (simp add: oneMappingPerSource_def newBot_def newRiskManager_def)

text \<open>And in a run without interruption at most one derived order is ever created for a
  source hash.\<close>

lemma copy_success_has_copy:
  "success (fst (copyOrder eng env ord w)) \<Longrightarrow>
     copiedOrder (fst (copyOrder eng env ord w)) \<noteq> None
     \<and> modifications (fst (copyOrder eng env ord w)) \<noteq> None"
  by (auto simp: copyOrder_def copyOrderBody_def failed_def Let_def
           split: option.splits sum.splits prod.splits if_splits)

lemma settled_detected:
  assumes "settled st"
  shows "settled (botStepUninterrupted eng st (EvOrderDetected ord w env))"
proof (cases "isOrderCopied (ledger st) (orderHash ord)")
  case True
  with assms show ?thesis
    by (simp add: settled_def handleOrderDetectedStart_def)
next
  case False
  obtain res sent where c: "copyOrder eng env ord w = (res, sent)"
    by (cases "copyOrder eng env ord w")
  have none: "createdFor st (orderHash ord) = []"
    using assms False by (auto simp: settled_def)
  have aw: "awaiting st = []" using assms by (simp add: settled_def)
  show ?thesis
  proof (cases "success res")
    case False
    then have "handleOrderDetectedResume (ledger st) ord res = ledger st"
      by (simp add: handleOrderDetectedResume_def split: option.splits)
    with assms \<open>\<not> isOrderCopied (ledger st) (orderHash ord)\<close> c False aw show ?thesis
      by (simp add: settled_def handleOrderDetectedStart_def createdFor_def
          split: option.splits)
  next
    case True
    then obtain cp md where cp: "copiedOrder res = Some cp" "modifications res = Some md"
      using copy_success_has_copy [of eng env ord w] c by auto
    have led: "handleOrderDetectedResume (ledger st) ord res
                 = recordOrderMapping (ledger st) cp (orderHash ord)"
      using True cp by (simp add: handleOrderDetectedResume_def)
    have new: "botStepUninterrupted eng st (EvOrderDetected ord w env)
                 = st\<lparr>awaiting := [],
                      derivedCreated := derivedCreated st @ [(orderHash ord, orderHash cp)],
                      ledger := recordOrderMapping (ledger st) cp (orderHash ord)\<rparr>"
      using \<open>\<not> isOrderCopied (ledger st) (orderHash ord)\<close> c True cp aw led
      by (simp add: handleOrderDetectedStart_def)
    have hist: "isOrderCopied (recordOrderMapping (ledger st) cp (orderHash ord)) h
                  = (h = orderHash ord \<or> isOrderCopied (ledger st) h)" for h
      by (simp add: isOrderCopied_def history_recordOrderMapping)
    show ?thesis
      unfolding new using assms none
      by (auto simp: settled_def createdFor_def hist)
  qed
qed

lemma settled_step: "settled st \<Longrightarrow> settled (botStepUninterrupted eng st ev)"
proof (cases ev)
  case (EvOrderDetected ord w env)
  assume "settled st"
  then show ?thesis unfolding EvOrderDetected by (rule settled_detected)
next
  case (EvCopyReturned i)
  assume "settled st"
  with EvCopyReturned show ?thesis by (simp add: settled_def)
next
  case (EvOwnOrderDetected ord)
  assume "settled st"
  with EvOwnOrderDetected show ?thesis
    by (simp add: settled_def createdFor_def isOrderCopied_def recordOrder_def)
next
  case (EvOwnOrderFilled h)
  assume "settled st"
  with EvOwnOrderFilled show ?thesis
    by (simp add: settled_def createdFor_def isOrderCopied_def removeOrder_def
        split: option.splits)
next
  case (EvOwnOrderCancelled h)
  assume "settled st"
  with EvOwnOrderCancelled show ?thesis
    by (simp add: settled_def createdFor_def isOrderCopied_def removeOrder_def
        split: option.splits)
next
  case (EvOrderFilled h env)
  assume "settled st"
  with EvOrderFilled show ?thesis by (simp add: settled_def createdFor_def)
next
  case (EvOrderCancelled h env)
  assume "settled st"
  with EvOrderCancelled show ?thesis by (simp add: settled_def createdFor_def)
qed

lemma settled_run: "settled st \<Longrightarrow> settled (botRunUninterrupted eng st evs)"
  unfolding botRunUninterrupted_def
  by (induction evs arbitrary: st) (simp_all add: settled_step)

lemma at_most_once_uninterrupted:
  "length (createdFor (botRunUninterrupted eng newBot evs) h) \<le> 1"
proof -
  have "settled newBot"
    by (simp add: settled_def newBot_def createdFor_def)
  then have "settled (botRunUninterrupted eng newBot evs)" by (rule settled_run)
  then show ?thesis by (simp add: settled_def)
qed

section \<open>The connection manager: what is proved\<close>

text \<open>
  C3, as stated, fails: on the transport's \<open>connected\<close> event the client emits its
  \<open>connected\<close> notification before it makes any call for the registered channel.
\<close>

theorem connected_before_resubscription_counterexample:
  "snd (onConnected (sampleClient [''active_orders_v2:0xusdc:0xw'']))
     = [Emit ''connected'', ChannelGet ''active_orders_v2:0xusdc:0xw'' (Some ''10s'')]
   \<and> \<not> resubscribedWhenNotified
       (subscribedChannels (sampleClient [''active_orders_v2:0xusdc:0xw'']))
       (snd (onConnected (sampleClient [''active_orders_v2:0xusdc:0xw''])))"
  by (simp add: resubscribedWhenNotified_def onConnected_def resubscribeChannels_def
      subscribe_def setAdd_def sampleClient_def)

lemma resubscribeLoop_actions:
  "clientPresent ws \<Longrightarrow>
     snd (resubscribeLoop ws channels) = map (\<lambda>c. ChannelGet c (Some ''10s'')) channels"
proof (induction channels arbitrary: ws)
  case Nil
  show ?case by simp
next
  case (Cons c channels)
  have "clientPresent (ws\<lparr>subscribedChannels := setAdd (subscribedChannels ws) c\<rparr>)"
    using Cons.prems by simp
  from Cons.IH [OF this] Cons.prems show ?case
    by (simp add: subscribe_def case_prod_beta)
qed

lemma resubscribeLoop_channels:
  "clientPresent ws \<Longrightarrow> distinct (subscribedChannels ws @ channels) \<Longrightarrow>
     subscribedChannels (fst (resubscribeLoop ws channels)) = subscribedChannels ws @ channels"
proof (induction channels arbitrary: ws)
  case Nil
  show ?case by simp
next
  case (Cons c channels)
  let ?ws = "ws\<lparr>subscribedChannels := setAdd (subscribedChannels ws) c\<rparr>"
  have c: "setAdd (subscribedChannels ws) c = subscribedChannels ws @ [c]"
    using Cons.prems(2) by (simp add: setAdd_def)
  have "subscribedChannels (fst (resubscribeLoop ?ws channels))
          = subscribedChannels ?ws @ channels"
    using Cons.prems by (intro Cons.IH) (simp_all add: c)
  then show ?case
    using Cons.prems(1) by (simp add: subscribe_def c case_prod_beta)
qed

text \<open>
  C3, amended. On the transport's \<open>connected\<close> event the session is reported connected
  first: the \<open>connected\<close> notification is the first action and no call for a channel is made
  before it. After it, for every registered channel, in the order of registration, the
  client obtains the channel from the transport again (\<open>channels.get\<close> with the default
  \<open>rewind\<close> of ten seconds) and re-adds its name, which leaves the registered channels as they
  were; it attaches no message handler.
\<close>

theorem notification_then_resubscription:
  assumes "clientPresent ws"
  shows "snd (onConnected ws)
           = Emit ''connected''
               # map (\<lambda>c. ChannelGet c (Some ''10s'')) (subscribedChannels ws)
         \<and> beforeConnected (snd (onConnected ws)) = []
         \<and> connectionState (fst (onConnected ws)) = Connected
         \<and> (distinct (subscribedChannels ws) \<longrightarrow>
              subscribedChannels (fst (onConnected ws)) = subscribedChannels ws)
         \<and> (\<forall>c. ChannelSubscribe c \<notin> set (snd (onConnected ws)))"
proof -
  let ?ws2 = "ws\<lparr>connectionState := Connected, reconnectAttempts := 0\<rparr>"
  let ?ws0 = "?ws2\<lparr>subscribedChannels := []\<rparr>"
  have loop: "snd (resubscribeLoop ?ws0 (subscribedChannels ws))
                = map (\<lambda>c. ChannelGet c (Some ''10s'')) (subscribedChannels ws)"
    using assms by (intro resubscribeLoop_actions) simp
  have acts: "snd (onConnected ws)
           = Emit ''connected''
               # map (\<lambda>c. ChannelGet c (Some ''10s'')) (subscribedChannels ws)"
    using assms loop
    by (cases "subscribedChannels ws = []")
       (simp_all add: onConnected_def resubscribeChannels_def case_prod_beta Let_def)
  have before: "beforeConnected (snd (onConnected ws)) = []"
    unfolding acts by simp
  have st: "connectionState (fst (resubscribeLoop w cs)) = connectionState w" for w cs
    by (induction cs arbitrary: w) (simp_all add: subscribe_def case_prod_beta)
  have conn: "connectionState (fst (onConnected ws)) = Connected"
    by (simp add: onConnected_def resubscribeChannels_def st case_prod_beta Let_def)
  have chans: "subscribedChannels (fst (onConnected ws)) = subscribedChannels ws"
    if "distinct (subscribedChannels ws)"
  proof -
    have "subscribedChannels (fst (resubscribeLoop ?ws0 (subscribedChannels ws)))
            = subscribedChannels ?ws0 @ subscribedChannels ws"
      using assms that by (intro resubscribeLoop_channels) simp_all
    then show ?thesis
      by (cases "subscribedChannels ws = []")
         (simp_all add: onConnected_def resubscribeChannels_def case_prod_beta Let_def)
  qed
  have noHandler: "ChannelSubscribe c \<notin> set (snd (onConnected ws))" for c
    unfolding acts by auto
  from acts before conn chans noHandler show ?thesis by blast
qed

theorem notification_then_resubscription_witness:
  "snd (onConnected (sampleClient [''a'', ''b'']))
     = [Emit ''connected'', ChannelGet ''a'' (Some ''10s''), ChannelGet ''b'' (Some ''10s'')]
   \<and> subscribedChannels (fst (onConnected (sampleClient [''a'', ''b'']))) = [''a'', ''b'']"
  using notification_then_resubscription [of "sampleClient [''a'', ''b'']"]
  by (simp add: sampleClient_def)

text \<open>A subscription made with a handler attaches it; the re-subscription passes none.\<close>

lemma subscribe_with_handler:
  "clientPresent ws \<Longrightarrow>
     map_sum id snd (subscribe ws c (Some h) r) = Inr [ChannelGet c (Some r), ChannelSubscribe c]
     \<and> map_sum id snd (subscribe ws c None r) = Inr [ChannelGet c (Some r)]"
  by (simp add: subscribe_def)

text \<open>\<open>disconnect\<close>, the first half of the client's own \<open>reconnect\<close>, drops every
  registered channel.\<close>

lemma unsubscribeLoop_channels:
  "clientPresent ws \<Longrightarrow>
     subscribedChannels (fst (unsubscribeLoop ws channels))
       = filter (\<lambda>c. c \<notin> set channels) (subscribedChannels ws)
     \<and> clientPresent (fst (unsubscribeLoop ws channels))"
proof (induction channels arbitrary: ws)
  case Nil
  then show ?case by simp
next
  case (Cons c channels)
  let ?ws = "ws\<lparr>subscribedChannels := removeAll c (subscribedChannels ws)\<rparr>"
  have "clientPresent ?ws" using Cons.prems by simp
  from Cons.IH [OF this] Cons.prems show ?case
    by (auto simp: unsubscribe_def case_prod_beta removeAll_filter_not_eq
             intro: filter_cong)
qed

lemma disconnect_drops_subscriptions:
  "clientPresent ws \<Longrightarrow> subscribedChannels (fst (disconnect ws)) = []"
  using unsubscribeLoop_channels [of ws "subscribedChannels ws"]
  by (simp add: disconnect_def case_prod_beta)

end
